theory Spec2Isabelle
  imports Complex_Main
begin

section \<open>JSON values and JSON text\<close>

text \<open>
  The numbers \<^verbatim>\<open>JSON.parse\<close> can yield: a finite number, given by its value, or an
  infinity (a literal out of the range of a double, such as \<^verbatim>\<open>1e999\<close>, is read as
  \<^verbatim>\<open>Infinity\<close>). \<^verbatim>\<open>NaN\<close> is never read from JSON text.
\<close>

datatype number = Finite rat | PosInfinity | NegInfinity

text \<open>
  A value as \<^verbatim>\<open>JSON.parse\<close> returns it: a tree without sharing. An object is the list
  of its properties in enumeration order.
\<close>

datatype json =
    JNull
  | JBool bool
  | JNum number
  | JStr string
  | JArr "json list"
  | JObj "(string \<times> json) list"

text \<open>
  A string handed to \<^verbatim>\<open>JSON.parse\<close> is represented by what the parser makes of it:
  the empty string (the only falsy string), a non-empty string that is not JSON text, or
  the JSON text of a value. Only \<^verbatim>\<open>JSON.parse\<close> and truthiness tests ever look at
  such a string in the program.
\<close>

datatype 'a jtext = EmptyText | Garbled | Encodes 'a

datatype error = ServiceError | TypeError | SyntaxError

fun JSON_parse :: "'a jtext \<Rightarrow> error + 'a" where
  "JSON_parse EmptyText = Inl SyntaxError"
| "JSON_parse Garbled = Inl SyntaxError"
| "JSON_parse (Encodes x) = Inr x"

fun truthy_text :: "'a jtext \<Rightarrow> bool" where
  "truthy_text EmptyText = False"
| "truthy_text Garbled = True"
| "truthy_text (Encodes x) = True"

text \<open>
  What \<^verbatim>\<open>JSON.stringify\<close> writes for a value, read back: a number that is not finite
  is written as \<^verbatim>\<open>null\<close>, everything else as it is.
\<close>

fun written :: "json \<Rightarrow> json" where
  "written (JNum (Finite q)) = JNum (Finite q)"
| "written (JNum PosInfinity) = JNull"
| "written (JNum NegInfinity) = JNull"
| "written (JArr xs) = JArr (map written xs)"
| "written (JObj kvs) = JObj (map (\<lambda>(k, v). (k, written v)) kvs)"
| "written JNull = JNull"
| "written (JBool b) = JBool b"
| "written (JStr s) = JStr s"

definition JSON_stringify :: "json \<Rightarrow> json jtext" where
  "JSON_stringify v = Encodes (written v)"

fun keys :: "json \<Rightarrow> string set" where
  "keys (JObj kvs) = set (map fst kvs)"
| "keys _ = {}"

fun field :: "string \<Rightarrow> json \<Rightarrow> json option" where
  "field k (JObj kvs) = map_of kvs k"
| "field k _ = None"

fun is_string :: "json \<Rightarrow> bool" where
  "is_string (JStr s) = True"
| "is_string _ = False"

text \<open>Decimal rendering of an integer, as a template literal renders a safe integer.\<close>

definition digit :: "nat \<Rightarrow> char" where
  "digit d = ''0123456789'' ! d"

fun decimal :: "nat \<Rightarrow> string" where
  "decimal n = (if n < 10 then [digit n] else decimal (n div 10) @ [digit (n mod 10)])"

declare decimal.simps [simp del]

definition String :: "int \<Rightarrow> string" where
  "String i = (if i < 0 then ''-'' @ decimal (nat (- i)) else decimal (nat i))"

section \<open>Domain types\<close>

text \<open>
  Modelled from the spec: the type declarations of \<^verbatim>\<open>types.ts\<close> (User, UserMetrics,
  MealHistoryItem, PlanHistoryItem, HistoryData), which the sources import. Gender and
  activity level are the enumerations of the spec, each with the empty string the form
  starts from (\<^verbatim>\<open>PersonalCoach.tsx\<close>, line 13). NutritionalInfo and PersonalizedPlan are
  type assertions over the result of \<^verbatim>\<open>JSON.parse\<close>, so at run time they are any JSON
  value.
\<close>

record User =
  name :: string
  email :: string

datatype gender = NoGender | Male | Female | Other

datatype activity = NoActivity | Sedentary | Light | Moderate | Active | VeryActive

fun gender_string :: "gender \<Rightarrow> string" where
  "gender_string NoGender = ''''"
| "gender_string Male = ''male''"
| "gender_string Female = ''female''"
| "gender_string Other = ''other''"

fun activity_string :: "activity \<Rightarrow> string" where
  "activity_string NoActivity = ''''"
| "activity_string Sedentary = ''sedentary''"
| "activity_string Light = ''light''"
| "activity_string Moderate = ''moderate''"
| "activity_string Active = ''active''"
| "activity_string VeryActive = ''very_active''"

record UserMetrics =
  height :: string
  weight :: string
  age :: string
  gender :: gender
  activityLevel :: activity

type_synonym NutritionalInfo = json
type_synonym PersonalizedPlan = json

record HistoryItem =
  id' :: string
  timestamp :: int

record MealHistoryItem = HistoryItem +
  nutritionalInfo :: NutritionalInfo
  imageDataUrl :: string

record PlanHistoryItem = HistoryItem +
  plan :: PersonalizedPlan
  metrics :: UserMetrics
  goal :: string

record HistoryData =
  meals :: "MealHistoryItem list"
  plans :: "PlanHistoryItem list"

section \<open>The AI gateway (services/apiService.ts)\<close>

subsection \<open>Response schemas\<close>

text \<open>
  A response schema as the source writes it: its type, and for an object its properties
  and the required ones. The descriptions are annotations and are left out.
\<close>

datatype schema =
    STRING
  | NUMBER
  | ARRAY schema
  | OBJECT "(string \<times> schema) list" "string list"

definition nutrientSchema :: schema where
  "nutrientSchema = OBJECT [(''name'', STRING), (''amount'', STRING)] [''name'', ''amount'']"

definition nutritionalInfoSchema :: schema where
  "nutritionalInfoSchema = OBJECT
     [(''foodItems'', ARRAY STRING),
      (''macros'', OBJECT
         [(''calories'', NUMBER), (''protein'', NUMBER), (''carbohydrates'', NUMBER),
          (''fat'', NUMBER)]
         [''calories'', ''protein'', ''carbohydrates'', ''fat'']),
      (''vitamins'', ARRAY nutrientSchema),
      (''minerals'', ARRAY nutrientSchema),
      (''summary'', STRING)]
     [''foodItems'', ''macros'', ''vitamins'', ''minerals'', ''summary'']"

definition mealObjectSchema :: schema where
  "mealObjectSchema = OBJECT
     [(''breakfast'', STRING), (''lunch'', STRING), (''dinner'', STRING), (''snacks'', STRING)]
     [''breakfast'', ''lunch'', ''dinner'']"

definition weekdays :: "string list" where
  "weekdays =
     [''Monday'', ''Tuesday'', ''Wednesday'', ''Thursday'', ''Friday'', ''Saturday'', ''Sunday'']"

definition personalizedPlanSchema :: schema where
  "personalizedPlanSchema = OBJECT
     [(''summary'', STRING),
      (''mealPlan'', OBJECT
         [(''Monday'', mealObjectSchema), (''Tuesday'', mealObjectSchema),
          (''Wednesday'', mealObjectSchema), (''Thursday'', mealObjectSchema),
          (''Friday'', mealObjectSchema), (''Saturday'', mealObjectSchema),
          (''Sunday'', mealObjectSchema)]
         [''Monday'', ''Tuesday'', ''Wednesday'', ''Thursday'', ''Friday'', ''Saturday'',
          ''Sunday'']),
      (''workoutPlan'', OBJECT
         [(''Monday'', STRING), (''Tuesday'', STRING), (''Wednesday'', STRING),
          (''Thursday'', STRING), (''Friday'', STRING), (''Saturday'', STRING),
          (''Sunday'', STRING)]
         [''Monday'', ''Tuesday'', ''Wednesday'', ''Thursday'', ''Friday'', ''Saturday'',
          ''Sunday''])]
     [''summary'', ''mealPlan'', ''workoutPlan'']"

text \<open>
  What the request asks of the service: a value of the schema's type; for an object,
  every required property, no property the schema does not declare, and each property's
  value conforming to its own schema. The gateway itself never evaluates this predicate.
\<close>

fun conforms :: "schema \<Rightarrow> json \<Rightarrow> bool" where
  "conforms STRING j = is_string j"
| "conforms NUMBER j = (case j of JNum x \<Rightarrow> True | _ \<Rightarrow> False)"
| "conforms (ARRAY s) j = (case j of JArr xs \<Rightarrow> list_all (conforms s) xs | _ \<Rightarrow> False)"
| "conforms (OBJECT props req) j = (case j of
       JObj kvs \<Rightarrow>
         list_all (\<lambda>k. k \<in> set (map fst kvs)) req \<and>
         list_all (\<lambda>kv. case map_of props (fst kv) of
                            None \<Rightarrow> False
                          | Some s \<Rightarrow> conforms s (snd kv)) kvs
     | _ \<Rightarrow> False)"

subsection \<open>Requests, the external service and the clock\<close>

datatype part = inlineData string string | textPart string

datatype contents = Parts "part list" | Prompt string

record request =
  model :: string
  contents :: contents
  responseMimeType :: string
  responseSchema :: schema

text \<open>
  One call of \<^verbatim>\<open>ai.models.generateContent\<close> either throws or returns a response.
  Of a response the gateway reads only \<^verbatim>\<open>response.text.trim()\<close>: the text may be
  undefined (\<open>None\<close>), and otherwise is given as what \<^verbatim>\<open>JSON.parse\<close> makes of the
  trimmed text.
\<close>

datatype outcome = Throws | Responds "json jtext option"

text \<open>
  The environment of a run: what the service does on its \<open>k\<close>-th call, and what the
  \<open>k\<close>-th reading of \<^verbatim>\<open>Date.now()\<close> returns (epoch milliseconds).
\<close>

record env =
  service :: "nat \<Rightarrow> outcome"
  clock :: "nat \<Rightarrow> int"

text \<open>
  The state the gateway works on: the module variable \<^verbatim>\<open>mockDb\<close>, and, to count the
  interactions with the environment, the requests sent so far and the number of clock
  readings taken so far.
\<close>

record world =
  mockDb :: HistoryData
  sent :: "request list"
  ticks :: nat

definition initial :: world where
  "initial = \<lparr>mockDb = \<lparr>meals = [], plans = []\<rparr>, sent = [], ticks = 0\<rparr>"

definition Date_now :: "env \<Rightarrow> world \<Rightarrow> int \<times> world" where
  "Date_now e w = (clock e (ticks w), w\<lparr>ticks := Suc (ticks w)\<rparr>)"

definition generateContent ::
  "env \<Rightarrow> request \<Rightarrow> world \<Rightarrow> (error + json jtext option) \<times> world" where
  "generateContent e req w =
     (let w' = w\<lparr>sent := sent w @ [req]\<rparr> in
      case service e (length (sent w)) of
        Throws \<Rightarrow> (Inl ServiceError, w')
      | Responds txt \<Rightarrow> (Inr txt, w'))"

subsection \<open>analyzeMealImage\<close>

text \<open>
  A call suspends at \<^verbatim>\<open>await\<close> until its request is settled, and touches \<^verbatim>\<open>mockDb\<close> only
  in the stretch after that, which runs without interruption. A call is therefore one step,
  taken on the state in which its request is settled.
\<close>

definition analysis_instruction :: string where
  "analysis_instruction = ''Analyze the provided image of a meal. Identify all food items, and provide a detailed nutritional breakdown including macronutrients (calories, protein, carbohydrates, fat), and a list of key vitamins and minerals with their amounts. Provide a brief, encouraging summary. Return the analysis in JSON format.''"

definition analysis_request :: "string \<Rightarrow> string \<Rightarrow> request" where
  "analysis_request base64Image mimeType =
     \<lparr>model = ''gemini-2.5-flash'',
      contents = Parts [inlineData base64Image mimeType, textPart analysis_instruction],
      responseMimeType = ''application/json'',
      responseSchema = nutritionalInfoSchema\<rparr>"

definition analyzeMealImage ::
  "env \<Rightarrow> string \<Rightarrow> string \<Rightarrow> world \<Rightarrow> (error + NutritionalInfo) \<times> world" where
  "analyzeMealImage e base64Image mimeType w =
     (case generateContent e (analysis_request base64Image mimeType) w of
        (Inl err, w1) \<Rightarrow> (Inl err, w1)
      | (Inr None, w1) \<Rightarrow> (Inl TypeError, w1)
      | (Inr (Some txt), w1) \<Rightarrow>
          (case JSON_parse txt of
             Inl err \<Rightarrow> (Inl err, w1)
           | Inr analysis \<Rightarrow>
               (let (t1, w2) = Date_now e w1;
                    (t2, w3) = Date_now e w2;
                    newMealItem =
                      \<lparr>id' = ''meal-'' @ String t1,
                       timestamp = t2,
                       nutritionalInfo = analysis,
                       imageDataUrl = ''data:'' @ mimeType @ '';base64,'' @ base64Image\<rparr>
                in (Inr analysis,
                    w3\<lparr>mockDb := (mockDb w3)\<lparr>meals := newMealItem # meals (mockDb w3)\<rparr>\<rparr>))))"

subsection \<open>generatePersonalizedPlan\<close>

definition replace_underscores :: "string \<Rightarrow> string" where
  "replace_underscores s = map (\<lambda>c. if c = CHR ''_'' then CHR '' '' else c) s"

definition prompt :: "UserMetrics \<Rightarrow> string \<Rightarrow> string" where
  "prompt metrics' goal' = concat
     [[CHR 0x0A],
      ''You are an expert AI Nutritionist and Personal Trainer.'', [CHR 0x0A],
      ''Based on the following user details, create a personalized 7-day meal and workout plan.'', [CHR 0x0A],
      [CHR 0x0A],
      ''User Metrics:'', [CHR 0x0A],
      ''- Age: '', age metrics', [CHR 0x0A],
      ''- Height: '', height metrics', [CHR 0x0A],
      ''- Weight: '', weight metrics', [CHR 0x0A],
      ''- Gender: '', gender_string (gender metrics'), [CHR 0x0A],
      ''- Activity Level: '', replace_underscores (activity_string (activityLevel metrics')), [CHR 0x0A],
      [CHR 0x0A],
      ''User'', [CHR 0x27], ''s Goal: '', [CHR 0x22], goal', [CHR 0x22], [CHR 0x0A],
      [CHR 0x0A],
      ''Generate a detailed 7-day meal plan (breakfast, lunch, dinner, and optional snacks) and a 7-day workout plan tailored to their goal. The plan should be encouraging, realistic, and sustainable. For example, if the goal is to '',
      [CHR 0x27], ''lose weight'', [CHR 0x27],
      '', suggest lower-calorie meals and workouts with more cardio. If the goal is to '',
      [CHR 0x27], ''gain muscle'', [CHR 0x27],
      '', suggest higher-protein meals and a strength-focused workout routine.'', [CHR 0x0A],
      [CHR 0x0A],
      ''Provide the response as a JSON object that adheres to the provided schema.'', [CHR 0x0A]]"

definition plan_request :: "UserMetrics \<Rightarrow> string \<Rightarrow> request" where
  "plan_request metrics' goal' =
     \<lparr>model = ''gemini-2.5-flash'',
      contents = Prompt (prompt metrics' goal'),
      responseMimeType = ''application/json'',
      responseSchema = personalizedPlanSchema\<rparr>"

definition generatePersonalizedPlan ::
  "env \<Rightarrow> UserMetrics \<Rightarrow> string \<Rightarrow> world \<Rightarrow> (error + PersonalizedPlan) \<times> world" where
  "generatePersonalizedPlan e metrics' goal' w =
     (case generateContent e (plan_request metrics' goal') w of
        (Inl err, w1) \<Rightarrow> (Inl err, w1)
      | (Inr None, w1) \<Rightarrow> (Inl TypeError, w1)
      | (Inr (Some txt), w1) \<Rightarrow>
          (case JSON_parse txt of
             Inl err \<Rightarrow> (Inl err, w1)
           | Inr plan' \<Rightarrow>
               (let (t1, w2) = Date_now e w1;
                    (t2, w3) = Date_now e w2;
                    newPlanItem =
                      \<lparr>id' = ''plan-'' @ String t1,
                       timestamp = t2,
                       plan = plan',
                       metrics = metrics',
                       goal = goal'\<rparr>
                in (Inr plan',
                    w3\<lparr>mockDb := (mockDb w3)\<lparr>plans := newPlanItem # plans (mockDb w3)\<rparr>\<rparr>))))"

subsection \<open>getHistory and clearHistory\<close>

text \<open>
  Both operations first wait for \<^verbatim>\<open>sleep(500)\<close>, which changes nothing and is left out.
  \<^verbatim>\<open>JSON.stringify(mockDb)\<close> read back at type HistoryData: identifiers, timestamps,
  metrics and goals are strings and safe integers and are written as they are; the values
  that came from the service are written by \<^const>\<open>written\<close>.
\<close>

definition written_meal :: "MealHistoryItem \<Rightarrow> MealHistoryItem" where
  "written_meal m = m\<lparr>nutritionalInfo := written (nutritionalInfo m)\<rparr>"

definition written_plan :: "PlanHistoryItem \<Rightarrow> PlanHistoryItem" where
  "written_plan p = p\<lparr>plan := written (plan p)\<rparr>"

definition stringify_history :: "HistoryData \<Rightarrow> HistoryData jtext" where
  "stringify_history db =
     Encodes \<lparr>meals = map written_meal (meals db), plans = map written_plan (plans db)\<rparr>"

definition getHistory :: "world \<Rightarrow> (error + HistoryData) \<times> world" where
  "getHistory w = (JSON_parse (stringify_history (mockDb w)), w)"

definition clearHistory :: "world \<Rightarrow> world" where
  "clearHistory w = w\<lparr>mockDb := \<lparr>meals = [], plans = []\<rparr>\<rparr>"

subsection \<open>Notions used to state the gateway's properties\<close>

text \<open>
  The shape a seven-day plan has: a \<^verbatim>\<open>mealPlan\<close> and a \<^verbatim>\<open>workoutPlan\<close>, each with
  exactly the seven weekday keys; every meal entry holds strings for breakfast, lunch and
  dinner, optionally one for snacks, and nothing else; every workout entry is a string.
\<close>

definition meal_entry_ok :: "json \<Rightarrow> bool" where
  "meal_entry_ok entry \<longleftrightarrow>
     list_all (\<lambda>k. case field k entry of Some v \<Rightarrow> is_string v | None \<Rightarrow> False)
       [''breakfast'', ''lunch'', ''dinner''] \<and>
     (case field ''snacks'' entry of Some v \<Rightarrow> is_string v | None \<Rightarrow> True) \<and>
     keys entry \<subseteq> {''breakfast'', ''lunch'', ''dinner'', ''snacks''}"

definition seven_day_plan :: "json \<Rightarrow> bool" where
  "seven_day_plan p \<longleftrightarrow>
     (case (field ''mealPlan'' p, field ''workoutPlan'' p) of
        (Some mealPlan, Some workoutPlan) \<Rightarrow>
          keys mealPlan = set weekdays \<and>
          keys workoutPlan = set weekdays \<and>
          list_all (\<lambda>d. case field d mealPlan of Some entry \<Rightarrow> meal_entry_ok entry | None \<Rightarrow> False)
            weekdays \<and>
          list_all (\<lambda>d. case field d workoutPlan of Some v \<Rightarrow> is_string v | None \<Rightarrow> False)
            weekdays
      | _ \<Rightarrow> False)"

text \<open>
  Entries are put at the front, so a history lists them in reverse order of insertion:
  timestamps do not decrease in insertion order when they do not increase along the list.
\<close>

definition newest_first :: "'a HistoryItem_scheme list \<Rightarrow> bool" where
  "newest_first xs = sorted_wrt (\<lambda>x y. timestamp y \<le> timestamp x) xs"

text \<open>The states the four operations can bring the gateway into, in a given environment.\<close>

inductive reachable :: "env \<Rightarrow> world \<Rightarrow> bool" for e :: env where
  start: "reachable e initial"
| analyze: "reachable e w \<Longrightarrow> reachable e (snd (analyzeMealImage e base64Image mimeType w))"
| generate: "reachable e w \<Longrightarrow> reachable e (snd (generatePersonalizedPlan e metrics' goal' w))"
| history: "reachable e w \<Longrightarrow> reachable e (snd (getHistory w))"
| clear: "reachable e w \<Longrightarrow> reachable e (clearHistory w)"

definition stamped :: "env \<Rightarrow> world \<Rightarrow> bool" where
  "stamped e w \<longleftrightarrow>
     newest_first (meals (mockDb w)) \<and> newest_first (plans (mockDb w)) \<and>
     (\<forall>x\<in>set (meals (mockDb w)). timestamp x \<le> clock e (ticks w)) \<and>
     (\<forall>x\<in>set (plans (mockDb w)). timestamp x \<le> clock e (ticks w))"

subsection \<open>Sample environments and inputs\<close>

text \<open>
  A service that answers every call with the JSON text of \<open>j\<close>, and one whose every call
  has the given outcome; in both the clock advances by one millisecond from one reading to
  the next. And a service that answers \<^verbatim>\<open>null\<close> while the clock runs backwards.
\<close>

definition replying :: "json \<Rightarrow> env" where
  "replying j = \<lparr>service = (\<lambda>k. Responds (Some (Encodes j))), clock = (\<lambda>k. 1000 + int k)\<rparr>"

definition rewinding :: env where
  "rewinding = \<lparr>service = (\<lambda>k. Responds (Some (Encodes JNull))), clock = (\<lambda>k. 1000 - int k)\<rparr>"

definition answering :: "outcome \<Rightarrow> env" where
  "answering out = \<lparr>service = (\<lambda>k. out), clock = (\<lambda>k. 1000 + int k)\<rparr>"

definition example_metrics :: UserMetrics where
  "example_metrics = \<lparr>height = ''180cm'', weight = ''75kg'', age = ''30'', gender = Male,
     activityLevel = Moderate\<rparr>"

definition example_day :: json where
  "example_day = JObj [(''breakfast'', JStr ''oats''), (''lunch'', JStr ''salad''),
     (''dinner'', JStr ''fish'')]"

definition example_plan :: json where
  "example_plan = JObj
     [(''summary'', JStr ''A steady week.''),
      (''mealPlan'', JObj (map (\<lambda>d. (d, example_day)) weekdays)),
      (''workoutPlan'', JObj (map (\<lambda>d. (d, JStr ''30 min walk'')) weekdays))]"

section \<open>Session persistence (App.tsx)\<close>

text \<open>
  Local storage holds two entries: \<^verbatim>\<open>user\<close>, the persisted session user, and
  \<^verbatim>\<open>user_db\<close>, the list of registered users. An entry is absent (\<open>None\<close>) or a string.
  The \<^verbatim>\<open>user\<close> entry is read back without any check of its shape, so it is the text of
  any JSON value; \<^verbatim>\<open>user_db\<close> is read at the type \<^verbatim>\<open>User[]\<close> the source declares for it.
\<close>

record localStorage =
  user_item :: "json jtext option"
  user_db_item :: "User list jtext option"

datatype Page = Analyzer | Coach | History

text \<open>
  The state of the application component. \<^verbatim>\<open>user\<close> holds a JavaScript value, \<^verbatim>\<open>null\<close> at
  the start; the application shows the login form exactly when the value is falsy.
\<close>

record App =
  user :: json
  currentPage :: Page

definition App_start :: App where
  "App_start = \<lparr>user = JNull, currentPage = Analyzer\<rparr>"

fun truthy :: "json \<Rightarrow> bool" where
  "truthy JNull = False"
| "truthy (JBool b) = b"
| "truthy (JNum (Finite q)) = (q \<noteq> 0)"
| "truthy (JNum PosInfinity) = True"
| "truthy (JNum NegInfinity) = True"
| "truthy (JStr s) = (s \<noteq> [])"
| "truthy (JArr xs) = True"
| "truthy (JObj kvs) = True"

definition logged_out :: "App \<Rightarrow> bool" where
  "logged_out app = (\<not> truthy (user app))"

definition User_json :: "User \<Rightarrow> json" where
  "User_json u = JObj [(''name'', JStr (name u)), (''email'', JStr (email u))]"

text \<open>
  The effect run once at the start. Everything in it stands inside \<^verbatim>\<open>try\<close>, and the
  handler removes the entry, so no error leaves it.
\<close>

definition restoreSession :: "App \<times> localStorage \<Rightarrow> App \<times> localStorage" where
  "restoreSession st =
     (case st of (app, ls) \<Rightarrow>
        (case user_item ls of
           None \<Rightarrow> (app, ls)
         | Some storedUser \<Rightarrow>
             if truthy_text storedUser
             then (case JSON_parse storedUser of
                     Inr v \<Rightarrow> (app\<lparr>user := v\<rparr>, ls)
                   | Inl err \<Rightarrow> (app, ls\<lparr>user_item := None\<rparr>))
             else (app, ls)))"

definition handleLogin :: "User \<Rightarrow> App \<times> localStorage \<Rightarrow> App \<times> localStorage" where
  "handleLogin newUser st =
     (case st of (app, ls) \<Rightarrow>
        (app\<lparr>user := User_json newUser\<rparr>,
         ls\<lparr>user_item := Some (JSON_stringify (User_json newUser))\<rparr>))"

definition handleLogout ::
  "App \<times> localStorage \<times> world \<Rightarrow> App \<times> localStorage \<times> world" where
  "handleLogout st =
     (case st of (app, ls, w) \<Rightarrow>
        (app\<lparr>user := JNull, currentPage := Analyzer\<rparr>,
         ls\<lparr>user_item := None\<rparr>,
         clearHistory w))"

section \<open>Mock authentication (components/Auth.tsx)\<close>

definition getUserDb :: "localStorage \<Rightarrow> error + User list" where
  "getUserDb ls =
     (case user_db_item ls of
        None \<Rightarrow> Inr []
      | Some db \<Rightarrow> if truthy_text db then JSON_parse db else Inr [])"

definition setUserDb :: "User list \<Rightarrow> localStorage \<Rightarrow> localStorage" where
  "setUserDb db ls = ls\<lparr>user_db_item := Some (Encodes db)\<rparr>"

text \<open>
  The body of the delayed callback of \<^verbatim>\<open>handleSubmit\<close>, for the form's mode and fields
  and the \<^verbatim>\<open>onLogin\<close> property of the component. It ends in one of three ways: it shows
  a message (\<^verbatim>\<open>setError\<close>, the state otherwise as before), it calls \<^verbatim>\<open>onLogin\<close> and shows
  none, or an exception of \<^verbatim>\<open>getUserDb\<close> leaves it (\<open>Inl\<close>).
\<close>

definition handleSubmit ::
  "(User \<Rightarrow> App \<times> localStorage \<Rightarrow> App \<times> localStorage) \<Rightarrow> bool \<Rightarrow> string \<Rightarrow> string \<Rightarrow> string \<Rightarrow>
   App \<times> localStorage \<Rightarrow> error + (string option \<times> App \<times> localStorage)" where
  "handleSubmit onLogin isRegister name' email' password st =
     (case st of (app, ls) \<Rightarrow>
      if isRegister then
        if name' = [] \<or> email' = [] \<or> password = []
        then Inr (Some ''Please fill all fields.'', st)
        else (case getUserDb ls of
                Inl err \<Rightarrow> Inl err
              | Inr db \<Rightarrow>
                  if list_ex (\<lambda>u. email u = email') db
                  then Inr (Some ''An account with this email already exists.'', st)
                  else (let newUser = \<lparr>name = name', email = email'\<rparr>
                        in Inr (None, onLogin newUser (app, setUserDb (db @ [newUser]) ls))))
      else
        if email' = [] \<or> password = []
        then Inr (Some ''Please enter email and password.'', st)
        else (case getUserDb ls of
                Inl err \<Rightarrow> Inl err
              | Inr db \<Rightarrow>
                  (case find (\<lambda>u. email u = email') db of
                     Some u \<Rightarrow> Inr (None, onLogin u st)
                   | None \<Rightarrow>
                       Inr (Some ''No account found with that email. Please register.'', st))))"

definition Register ::
  "string \<Rightarrow> string \<Rightarrow> string \<Rightarrow> App \<times> localStorage \<Rightarrow> error + (string option \<times> App \<times> localStorage)" where
  "Register name' email' password st = handleSubmit handleLogin True name' email' password st"

definition Login ::
  "string \<Rightarrow> string \<Rightarrow> App \<times> localStorage \<Rightarrow> error + (string option \<times> App \<times> localStorage)" where
  "Login email' password st = handleSubmit handleLogin False [] email' password st"

definition fresh_storage :: localStorage where
  "fresh_storage = \<lparr>user_item = None, user_db_item = None\<rparr>"

subsection \<open>Sample users and storage contents\<close>

definition alice :: User where
  "alice = \<lparr>name = ''Alice'', email = ''alice@x.com''\<rparr>"

definition alice_registered :: localStorage where
  "alice_registered = \<lparr>user_item = None, user_db_item = Some (Encodes [alice])\<rparr>"

definition alice_session :: "App \<times> localStorage" where
  "alice_session =
     (\<lparr>user = User_json alice, currentPage = Analyzer\<rparr>,
      \<lparr>user_item = Some (Encodes (User_json alice)), user_db_item = Some (Encodes [alice])\<rparr>)"

definition alice_stored :: localStorage where
  "alice_stored = \<lparr>user_item = Some (Encodes (User_json alice)), user_db_item = Some (Encodes [alice])\<rparr>"

definition garbled_user :: localStorage where
  "garbled_user = \<lparr>user_item = Some Garbled, user_db_item = None\<rparr>"

definition empty_user :: localStorage where
  "empty_user = \<lparr>user_item = Some EmptyText, user_db_item = None\<rparr>"

section \<open>The plan form (components/PersonalCoach.tsx)\<close>

subsection \<open>String functions of the language\<close>

text \<open>
  Characters are eight bits wide here. Of the white space and line terminators that
  \<^verbatim>\<open>trim\<close>, \<^verbatim>\<open>parseInt\<close> and \<^verbatim>\<open>parseFloat\<close> skip, these are the ones in that range: tab,
  line feed, vertical tab, form feed, carriage return, space and no-break space.
\<close>

definition isWhiteSpace :: "char \<Rightarrow> bool" where
  "isWhiteSpace c \<longleftrightarrow>
     c \<in> set [CHR 0x09, CHR 0x0A, CHR 0x0B, CHR 0x0C, CHR 0x0D, CHR 0x20, CHR 0xA0]"

definition trim :: "string \<Rightarrow> string" where
  "trim s = rev (dropWhile isWhiteSpace (rev (dropWhile isWhiteSpace s)))"

definition isDigit :: "char \<Rightarrow> bool" where
  "isDigit c \<longleftrightarrow> c \<in> set ''0123456789''"

definition digitValue :: "char \<Rightarrow> nat" where
  "digitValue c = of_char c - 48"

definition decimalValue :: "string \<Rightarrow> nat" where
  "decimalValue ds = foldl (\<lambda>n c. 10 * n + digitValue c) 0 ds"

definition startsWith :: "string \<Rightarrow> char \<Rightarrow> bool" where
  "startsWith s c \<longleftrightarrow> (case s of [] \<Rightarrow> False | x # xs \<Rightarrow> x = c)"

text \<open>An optional sign at the head of a string: whether it is a minus, and what follows.\<close>

definition signed :: "string \<Rightarrow> bool \<times> string" where
  "signed s =
     (if startsWith s (CHR ''-'') then (True, tl s)
      else if startsWith s (CHR ''+'') then (False, tl s)
      else (False, s))"

text \<open>
  \<^verbatim>\<open>parseInt(s, 10)\<close>: white space is skipped, then a sign, then the longest run of
  decimal digits is read; with no digit the result is \<^verbatim>\<open>NaN\<close> (\<open>None\<close>). The integer read
  is rounded to a double by the language; rounding is monotone and exact on 0 to 121, so
  the comparisons with 1 and 120 come out the same on the integer itself.
\<close>

definition parseInt :: "string \<Rightarrow> int option" where
  "parseInt s =
     (let (negative, S) = signed (dropWhile isWhiteSpace s);
          Z = takeWhile isDigit S
      in if Z = [] then None
         else Some (if negative then - int (decimalValue Z) else int (decimalValue Z)))"

definition scale10 :: "int \<Rightarrow> rat" where
  "scale10 k = (if 0 \<le> k then 10 ^ nat k else 1 / 10 ^ nat (- k))"

text \<open>The exponent part at the head of a string, if there is a complete one, else 0.\<close>

definition exponentPart :: "string \<Rightarrow> int" where
  "exponentPart r =
     (if startsWith r (CHR ''e'') \<or> startsWith r (CHR ''E'') then
        (let (negative, t) = signed (tl r);
             ds = takeWhile isDigit t
         in if ds = [] then 0
            else if negative then - int (decimalValue ds) else int (decimalValue ds))
      else 0)"

text \<open>
  \<^verbatim>\<open>parseFloat(s)\<close>: white space is skipped, then the longest prefix that is a decimal
  literal is read: a sign, then \<^verbatim>\<open>Infinity\<close> or digits with an optional fraction and an
  optional exponent; with no such prefix the result is \<^verbatim>\<open>NaN\<close> (\<open>None\<close>). \<open>Finite q\<close>
  gives the value \<open>q\<close> the literal denotes, before it is rounded to a double.
\<close>

definition parseFloat :: "string \<Rightarrow> number option" where
  "parseFloat s =
     (let (negative, U) = signed (dropWhile isWhiteSpace s)
      in if take 8 U = ''Infinity'' then Some (if negative then NegInfinity else PosInfinity)
         else
           (let intPart = takeWhile isDigit U;
                r1 = dropWhile isDigit U;
                fracPart = (if startsWith r1 (CHR ''.'') then takeWhile isDigit (tl r1) else []);
                r2 = (if startsWith r1 (CHR ''.'') then dropWhile isDigit (tl r1) else r1);
                magnitude = of_nat (decimalValue (intPart @ fracPart)) *
                              scale10 (exponentPart r2 - int (length fracPart))
            in if intPart = [] \<and> fracPart = [] then None
               else Some (Finite (if negative then - magnitude else magnitude))))"

text \<open>
  \<^verbatim>\<open>x <= 0\<close> for the double that the number is rounded to: a positive value is rounded
  to zero exactly when it is at most \<open>2\<^sup>-\<^sup>1\<^sup>0\<^sup>7\<^sup>5\<close>, half the least positive double.
\<close>

definition le_zero :: "number \<Rightarrow> bool" where
  "le_zero x = (case x of
       Finite q \<Rightarrow> q \<le> 1 / 2 ^ 1075
     | PosInfinity \<Rightarrow> False
     | NegInfinity \<Rightarrow> True)"

subsection \<open>validateForm and handleGeneratePlan\<close>

text \<open>
  The errors \<^verbatim>\<open>validateForm\<close> collects for the metrics and the goal of the form, in the
  order it adds them; it returns whether the collection has no key.
\<close>

definition newErrors :: "UserMetrics \<Rightarrow> string \<Rightarrow> (string \<times> string) list" where
  "newErrors metrics' goal' =
     (let ageNum = parseInt (age metrics') in
      if age metrics' = [] then [(''age'', ''Age is required.'')]
      else if (case ageNum of None \<Rightarrow> True | Some n \<Rightarrow> n < 1 \<or> n > 120)
        then [(''age'', ''Please enter a realistic age (1-120).'')]
        else []) @
     (let heightNum = parseFloat (height metrics') in
      if trim (height metrics') = [] then [(''height'', ''Height is required.'')]
      else if (case heightNum of None \<Rightarrow> True | Some x \<Rightarrow> le_zero x)
        then [(''height'', ''Please enter a valid positive number for height.'')]
        else []) @
     (let weightNum = parseFloat (weight metrics') in
      if trim (weight metrics') = [] then [(''weight'', ''Weight is required.'')]
      else if (case weightNum of None \<Rightarrow> True | Some x \<Rightarrow> le_zero x)
        then [(''weight'', ''Please enter a valid positive number for weight.'')]
        else []) @
     (if gender_string (gender metrics') = [] then [(''gender'', ''Please select your gender.'')]
      else []) @
     (if activity_string (activityLevel metrics') = []
        then [(''activityLevel'', ''Please select your activity level.'')]
        else []) @
     (if trim goal' = [] then [(''goal'', ''Please describe your goal.'')] else [])"

definition validateForm :: "UserMetrics \<Rightarrow> string \<Rightarrow> bool" where
  "validateForm metrics' goal' \<longleftrightarrow> length (map fst (newErrors metrics' goal')) = 0"

text \<open>
  What \<^verbatim>\<open>handleGeneratePlan\<close> leaves on the form: the validation errors, the plan, or
  the error of the request.
\<close>

datatype shown = Invalid "(string \<times> string) list" | Planned PersonalizedPlan | ApiError error

definition handleGeneratePlan ::
  "env \<Rightarrow> UserMetrics \<Rightarrow> string \<Rightarrow> world \<Rightarrow> shown \<times> world" where
  "handleGeneratePlan e metrics' goal' w =
     (if \<not> validateForm metrics' goal' then (Invalid (newErrors metrics' goal'), w)
      else (case generatePersonalizedPlan e metrics' goal' w of
              (Inr result, w') \<Rightarrow> (Planned result, w')
            | (Inl err, w') \<Rightarrow> (ApiError err, w')))"

subsection \<open>The validation contract in the words of the specification\<close>

text \<open>
  Age is an integer from 1 to 120, height and weight are non-empty and parse to positive
  numbers, gender and activity level are one of the enumerated values, and the goal is
  non-empty. An integer is read as a numeral of decimal digits.
\<close>

definition integer_in_range :: "string \<Rightarrow> bool" where
  "integer_in_range s \<longleftrightarrow>
     s \<noteq> [] \<and> list_all isDigit s \<and> 1 \<le> decimalValue s \<and> decimalValue s \<le> 120"

definition positive_number :: "string \<Rightarrow> bool" where
  "positive_number s \<longleftrightarrow>
     s \<noteq> [] \<and> (case parseFloat s of None \<Rightarrow> False | Some x \<Rightarrow> \<not> le_zero x)"

definition validation_contract :: "UserMetrics \<Rightarrow> string \<Rightarrow> bool" where
  "validation_contract metrics' goal' \<longleftrightarrow>
     integer_in_range (age metrics') \<and>
     positive_number (height metrics') \<and>
     positive_number (weight metrics') \<and>
     gender metrics' \<in> {Male, Female, Other} \<and>
     activityLevel metrics' \<in> {Sedentary, Light, Moderate, Active, VeryActive} \<and>
     goal' \<noteq> []"

definition fractional_age :: UserMetrics where
  "fractional_age = \<lparr>height = ''180cm'', weight = ''75kg'', age = ''12.5'', gender = Male,
     activityLevel = Moderate\<rparr>"

section \<open>The object store behind getHistory\<close>

text \<open>
  Whether \<^verbatim>\<open>getHistory\<close> hands out a copy or the store itself cannot be told from the
  values alone, so here objects and arrays live in a store of cells and are named by
  their addresses. A cell is never removed, and a new cell is put at the end.
\<close>

type_synonym addr = nat

datatype jsval = VNull | VBool bool | VNum number | VStr string | VRef addr

datatype cell = ObjectCell "(string \<times> jsval) list" | ArrayCell "jsval list"

type_synonym heap = "cell list"

fun members :: "cell \<Rightarrow> jsval list" where
  "members (ObjectCell kvs) = map snd kvs"
| "members (ArrayCell vs) = vs"

text \<open>
  The walk \<^verbatim>\<open>JSON.stringify\<close> takes from a value through the store, giving the tree it
  finds. Every cell entered costs one unit of fuel; the walk has no result when the fuel
  runs out. A walk that enters no cell twice on a path needs no more fuel than the store
  has cells, so with more fuel than that, having no result means a cycle, on which
  \<^verbatim>\<open>JSON.stringify\<close> throws.
\<close>

fun reify :: "nat \<Rightarrow> heap \<Rightarrow> jsval \<Rightarrow> json option" where
  "reify n h VNull = Some JNull"
| "reify n h (VBool b) = Some (JBool b)"
| "reify n h (VNum x) = Some (JNum x)"
| "reify n h (VStr s) = Some (JStr s)"
| "reify 0 h (VRef a) = None"
| "reify (Suc n) h (VRef a) =
     (if a < length h then
        (case h ! a of
           ArrayCell vs \<Rightarrow> map_option JArr (those (map (reify n h) vs))
         | ObjectCell kvs \<Rightarrow>
             map_option (\<lambda>js. JObj (zip (map fst kvs) js)) (those (map (reify n h) (map snd kvs))))
      else None)"

text \<open>
  \<^verbatim>\<open>JSON.parse\<close> makes a tree into objects and arrays: one new cell for each object and
  each array of the tree.
\<close>

fun build :: "json \<Rightarrow> heap \<Rightarrow> jsval \<times> heap"
  and build_list :: "json list \<Rightarrow> heap \<Rightarrow> jsval list \<times> heap"
  and build_fields :: "(string \<times> json) list \<Rightarrow> heap \<Rightarrow> (string \<times> jsval) list \<times> heap" where
  "build JNull h = (VNull, h)"
| "build (JBool b) h = (VBool b, h)"
| "build (JNum x) h = (VNum x, h)"
| "build (JStr s) h = (VStr s, h)"
| "build (JArr xs) h = (case build_list xs h of (vs, h') \<Rightarrow> (VRef (length h'), h' @ [ArrayCell vs]))"
| "build (JObj kvs) h = (case build_fields kvs h of (fs, h') \<Rightarrow> (VRef (length h'), h' @ [ObjectCell fs]))"
| "build_list [] h = ([], h)"
| "build_list (x # xs) h =
     (case build x h of (v, h1) \<Rightarrow> case build_list xs h1 of (vs, h2) \<Rightarrow> (v # vs, h2))"
| "build_fields [] h = ([], h)"
| "build_fields (kv # kvs) h =
     (case build (snd kv) h of (v, h1) \<Rightarrow>
        case build_fields kvs h1 of (fs, h2) \<Rightarrow> ((fst kv, v) # fs, h2))"

text \<open>
  The state at this level: the cells, and the address the variable \<^verbatim>\<open>mockDb\<close> holds.
  \<^verbatim>\<open>getHistory\<close> walks the store from \<^verbatim>\<open>mockDb\<close>, writes the tree as text, reads the text
  back and builds the result from it.
\<close>

record machine =
  cells :: heap
  mockDb_at :: addr

definition readback :: "machine \<Rightarrow> jsval \<Rightarrow> json option" where
  "readback s v = reify (Suc (length (cells s))) (cells s) v"

definition getHistory_in :: "machine \<Rightarrow> error + (jsval \<times> machine)" where
  "getHistory_in s =
     (case readback s (VRef (mockDb_at s)) of
        None \<Rightarrow> Inl TypeError
      | Some j \<Rightarrow>
          (case JSON_parse (JSON_stringify j) of
             Inl err \<Rightarrow> Inl err
           | Inr copy \<Rightarrow>
               (case build copy (cells s) of (v, h') \<Rightarrow> Inr (v, s\<lparr>cells := h'\<rparr>))))"

text \<open>
  The tree of a history: what the walk finds in a store whose cells hold that history.
\<close>

definition UserMetrics_json :: "UserMetrics \<Rightarrow> json" where
  "UserMetrics_json m = JObj
     [(''height'', JStr (height m)), (''weight'', JStr (weight m)), (''age'', JStr (age m)),
      (''gender'', JStr (gender_string (gender m))),
      (''activityLevel'', JStr (activity_string (activityLevel m)))]"

definition MealHistoryItem_json :: "MealHistoryItem \<Rightarrow> json" where
  "MealHistoryItem_json m = JObj
     [(''id'', JStr (id' m)), (''timestamp'', JNum (Finite (of_int (timestamp m)))),
      (''nutritionalInfo'', nutritionalInfo m), (''imageDataUrl'', JStr (imageDataUrl m))]"

definition PlanHistoryItem_json :: "PlanHistoryItem \<Rightarrow> json" where
  "PlanHistoryItem_json p = JObj
     [(''id'', JStr (id' p)), (''timestamp'', JNum (Finite (of_int (timestamp p)))),
      (''plan'', plan p), (''metrics'', UserMetrics_json (metrics p)), (''goal'', JStr (goal p))]"

definition HistoryData_json :: "HistoryData \<Rightarrow> json" where
  "HistoryData_json db = JObj
     [(''meals'', JArr (map MealHistoryItem_json (meals db))),
      (''plans'', JArr (map PlanHistoryItem_json (plans db)))]"

definition holds :: "machine \<Rightarrow> HistoryData \<Rightarrow> bool" where
  "holds s db \<longleftrightarrow> readback s (VRef (mockDb_at s)) = Some (HistoryData_json db)"

fun finite_json :: "json \<Rightarrow> bool" where
  "finite_json (JNum (Finite q)) = True"
| "finite_json (JNum PosInfinity) = False"
| "finite_json (JNum NegInfinity) = False"
| "finite_json (JArr xs) = list_all finite_json xs"
| "finite_json (JObj kvs) = list_all (\<lambda>kv. finite_json (snd kv)) kvs"
| "finite_json JNull = True"
| "finite_json (JBool b) = True"
| "finite_json (JStr s) = True"

definition finite_history :: "HistoryData \<Rightarrow> bool" where
  "finite_history db \<longleftrightarrow>
     list_all (\<lambda>m. finite_json (nutritionalInfo m)) (meals db) \<and>
     list_all (\<lambda>p. finite_json (plan p)) (plans db)"

text \<open>The cells a value reaches through the store.\<close>

inductive reaches :: "heap \<Rightarrow> jsval \<Rightarrow> addr \<Rightarrow> bool" for h :: heap where
  here: "reaches h (VRef a) a"
| step: "a < length h \<Longrightarrow> u \<in> set (members (h ! a)) \<Longrightarrow> reaches h u b \<Longrightarrow> reaches h (VRef a) b"

text \<open>
  Notions for the proofs: a store that keeps every cell of another one; the fuel a value
  needs; a value that reads back as a given tree in every larger store; a value that
  points into a range of addresses, and a store whose cells from an address on do so.
\<close>

definition agrees :: "heap \<Rightarrow> heap \<Rightarrow> bool" where
  "agrees h h2 \<longleftrightarrow> length h \<le> length h2 \<and> take (length h) h2 = h"

fun rank :: "jsval \<Rightarrow> nat" where
  "rank (VRef a) = Suc a"
| "rank _ = 0"

definition rebuilt :: "heap \<Rightarrow> jsval \<Rightarrow> json \<Rightarrow> bool" where
  "rebuilt h v j \<longleftrightarrow>
     rank v \<le> length h \<and> (\<forall>n h2. rank v \<le> n \<longrightarrow> agrees h h2 \<longrightarrow> reify n h2 v = Some j)"

definition inside :: "nat \<Rightarrow> nat \<Rightarrow> jsval \<Rightarrow> bool" where
  "inside lo hi v \<longleftrightarrow> (\<forall>a. v = VRef a \<longrightarrow> lo \<le> a \<and> a < hi)"

definition new_cells :: "heap \<Rightarrow> nat \<Rightarrow> bool" where
  "new_cells h lo \<longleftrightarrow>
     (\<forall>i. lo \<le> i \<and> i < length h \<longrightarrow> (\<forall>u\<in>set (members (h ! i)). inside lo (length h) u))"

subsection \<open>Sample stores\<close>

text \<open>
  The history after one successful analysis, a store of five cells that holds it, and
  that store after \<^verbatim>\<open>getHistory\<close>; and the history after an analysis whose reply is a
  number out of the range of a double.
\<close>

definition one_meal :: world where
  "one_meal = snd (analyzeMealImage (replying (JObj [(''summary'', JStr ''ok'')])) ''QUJD'' ''image/png'' initial)"

definition one_meal_store :: machine where
  "one_meal_store =
     \<lparr>cells =
        [ObjectCell [(''summary'', VStr ''ok'')],
         ObjectCell [(''id'', VStr ''meal-1000''), (''timestamp'', VNum (Finite 1001)),
                     (''nutritionalInfo'', VRef 0),
                     (''imageDataUrl'', VStr ''data:image/png;base64,QUJD'')],
         ArrayCell [VRef 1],
         ArrayCell [],
         ObjectCell [(''meals'', VRef 2), (''plans'', VRef 3)]],
      mockDb_at = 4\<rparr>"

definition overflowed :: world where
  "overflowed = snd (analyzeMealImage (replying (JNum PosInfinity)) ''QUJD'' ''image/png'' initial)"

definition one_meal_copied :: machine where
  "one_meal_copied =
     \<lparr>cells =
        [ObjectCell [(''summary'', VStr ''ok'')],
         ObjectCell [(''id'', VStr ''meal-1000''), (''timestamp'', VNum (Finite 1001)),
                     (''nutritionalInfo'', VRef 0),
                     (''imageDataUrl'', VStr ''data:image/png;base64,QUJD'')],
         ArrayCell [VRef 1],
         ArrayCell [],
         ObjectCell [(''meals'', VRef 2), (''plans'', VRef 3)],
         ObjectCell [(''summary'', VStr ''ok'')],
         ObjectCell [(''id'', VStr ''meal-1000''), (''timestamp'', VNum (Finite 1001)),
                     (''nutritionalInfo'', VRef 5),
                     (''imageDataUrl'', VStr ''data:image/png;base64,QUJD'')],
         ArrayCell [VRef 6],
         ArrayCell [],
         ObjectCell [(''meals'', VRef 7), (''plans'', VRef 8)]],
      mockDb_at = 4\<rparr>"

text \<open>
  A store that holds a given history: the cells \<^verbatim>\<open>JSON.parse\<close> builds from its tree in an
  empty store, the last one being the root.
\<close>

definition laid_out :: "HistoryData \<Rightarrow> machine" where
  "laid_out db =
     (case build (HistoryData_json db) [] of (v, h) \<Rightarrow> \<lparr>cells = h, mockDb_at = length h - 1\<rparr>)"

section \<open>Properties of the gateway\<close>

subsection \<open>What a call does, by the outcome of its request\<close>

lemma JSON_parse_not_encoded:
  "(\<forall>a. t \<noteq> Encodes a) \<Longrightarrow> JSON_parse t = Inl SyntaxError"
  by (cases t) simp_all

lemma generateContent_eq:
  "generateContent e req w =
     ((case service e (length (sent w)) of Throws \<Rightarrow> Inl ServiceError | Responds txt \<Rightarrow> Inr txt),
      w\<lparr>sent := sent w @ [req]\<rparr>)"
  by (simp add: generateContent_def Let_def split: outcome.split)

lemma analyzeMealImage_success:
  assumes "service e (length (sent w)) = Responds (Some (Encodes a))"
  shows "analyzeMealImage e b m w =
     (Inr a, \<lparr>mockDb = (mockDb w)\<lparr>meals :=
                 \<lparr>id' = ''meal-'' @ String (clock e (ticks w)),
                  timestamp = clock e (Suc (ticks w)),
                  nutritionalInfo = a,
                  imageDataUrl = ''data:'' @ m @ '';base64,'' @ b\<rparr> # meals (mockDb w)\<rparr>,
              sent = sent w @ [analysis_request b m],
              ticks = Suc (Suc (ticks w))\<rparr>)"
  using assms by (simp add: analyzeMealImage_def generateContent_eq Date_now_def)

lemma analyzeMealImage_failure:
  assumes "\<forall>a. service e (length (sent w)) \<noteq> Responds (Some (Encodes a))"
  shows "\<exists>err. analyzeMealImage e b m w = (Inl err, w\<lparr>sent := sent w @ [analysis_request b m]\<rparr>)"
  using assms
  by (auto simp add: analyzeMealImage_def generateContent_eq JSON_parse_not_encoded
      split: outcome.split option.split)

lemma generatePersonalizedPlan_success:
  assumes "service e (length (sent w)) = Responds (Some (Encodes p))"
  shows "generatePersonalizedPlan e ms g w =
     (Inr p, \<lparr>mockDb = (mockDb w)\<lparr>plans :=
                 \<lparr>id' = ''plan-'' @ String (clock e (ticks w)),
                  timestamp = clock e (Suc (ticks w)),
                  plan = p, metrics = ms, goal = g\<rparr> # plans (mockDb w)\<rparr>,
              sent = sent w @ [plan_request ms g],
              ticks = Suc (Suc (ticks w))\<rparr>)"
  using assms by (simp add: generatePersonalizedPlan_def generateContent_eq Date_now_def)

lemma generatePersonalizedPlan_failure:
  assumes "\<forall>a. service e (length (sent w)) \<noteq> Responds (Some (Encodes a))"
  shows "\<exists>err. generatePersonalizedPlan e ms g w = (Inl err, w\<lparr>sent := sent w @ [plan_request ms g]\<rparr>)"
  using assms
  by (auto simp add: generatePersonalizedPlan_def generateContent_eq JSON_parse_not_encoded
      split: outcome.split option.split)

lemma analyzeMealImage_cases:
  obtains (ok) a where "service e (length (sent w)) = Responds (Some (Encodes a))"
    | (failed) err where "analyzeMealImage e b m w = (Inl err, w\<lparr>sent := sent w @ [analysis_request b m]\<rparr>)"
  using analyzeMealImage_failure [of e w b m] by blast

lemma generatePersonalizedPlan_cases:
  obtains (ok) a where "service e (length (sent w)) = Responds (Some (Encodes a))"
    | (failed) err where "generatePersonalizedPlan e ms g w = (Inl err, w\<lparr>sent := sent w @ [plan_request ms g]\<rparr>)"
  using generatePersonalizedPlan_failure [of e w ms g] by blast

subsection \<open>Schema conformance\<close>

lemma conforms_OBJECT_D:
  assumes "conforms (OBJECT props req) j"
  shows "\<exists>kvs. j = JObj kvs \<and> (\<forall>k\<in>set req. k \<in> fst ` set kvs) \<and>
           (\<forall>k v. (k, v) \<in> set kvs \<longrightarrow> (\<exists>s. map_of props k = Some s \<and> conforms s v))"
proof (cases j)
  case (JObj kvs)
  with assms have req: "\<forall>k\<in>set req. k \<in> fst ` set kvs"
    and all: "\<forall>kv\<in>set kvs. case map_of props (fst kv) of None \<Rightarrow> False | Some s \<Rightarrow> conforms s (snd kv)"
    by (simp_all add: list_all_iff)
  have "\<exists>s. map_of props k = Some s \<and> conforms s v" if "(k, v) \<in> set kvs" for k v
    using all that by (force split: option.splits)
  with req JObj show ?thesis by blast
qed (use assms in simp_all)

lemma conforms_keys:
  assumes "conforms (OBJECT props req) j"
  shows "set req \<subseteq> keys j \<and> keys j \<subseteq> fst ` set props"
proof -
  from conforms_OBJECT_D [OF assms] obtain kvs where j: "j = JObj kvs"
    and r: "\<forall>k\<in>set req. k \<in> fst ` set kvs"
    and a: "\<forall>k v. (k, v) \<in> set kvs \<longrightarrow> (\<exists>s. map_of props k = Some s \<and> conforms s v)"
    by blast
  have "set req \<subseteq> keys j" using r j by auto
  moreover have "keys j \<subseteq> fst ` set props"
  proof
    fix k assume "k \<in> keys j"
    then obtain v where "(k, v) \<in> set kvs" using j by auto
    with a obtain s where "map_of props k = Some s" by blast
    then have "(k, s) \<in> set props" by (rule map_of_SomeD)
    then show "k \<in> fst ` set props" by force
  qed
  ultimately show ?thesis ..
qed

lemma conforms_field:
  assumes "conforms (OBJECT props req) j" and "field k j = Some v"
  shows "\<exists>s. map_of props k = Some s \<and> conforms s v"
proof -
  from conforms_OBJECT_D [OF assms(1)] obtain kvs where j: "j = JObj kvs"
    and a: "\<forall>k v. (k, v) \<in> set kvs \<longrightarrow> (\<exists>s. map_of props k = Some s \<and> conforms s v)"
    by blast
  from assms(2) j have "(k, v) \<in> set kvs" by (simp add: map_of_SomeD)
  with a show ?thesis by blast
qed

lemma conforms_required:
  assumes "conforms (OBJECT props req) j" and "k \<in> set req"
  shows "\<exists>v s. field k j = Some v \<and> map_of props k = Some s \<and> conforms s v"
proof -
  from conforms_OBJECT_D [OF assms(1)] obtain kvs where j: "j = JObj kvs"
    and r: "\<forall>k\<in>set req. k \<in> fst ` set kvs"
    by blast
  from r assms(2) have "k \<in> fst ` set kvs" by blast
  then obtain v where "map_of kvs k = Some v"
    by (metis domD dom_map_of_conv_image_fst)
  then have f: "field k j = Some v" using j by simp
  from conforms_field [OF assms(1) f] f show ?thesis by blast
qed

lemma required_string:
  assumes c: "conforms (OBJECT props req) j" and k: "k \<in> set req"
    and s: "map_of props k = Some STRING"
  shows "case field k j of Some v \<Rightarrow> is_string v | None \<Rightarrow> False"
proof -
  from conforms_required [OF c k] s show ?thesis by auto
qed

lemma mealObjectSchema_entry:
  assumes "conforms mealObjectSchema entry"
  shows "meal_entry_ok entry"
proof -
  note c = assms [unfolded mealObjectSchema_def]
  have b: "case field ''breakfast'' entry of Some v \<Rightarrow> is_string v | None \<Rightarrow> False"
    by (rule required_string [OF c]) simp_all
  have l: "case field ''lunch'' entry of Some v \<Rightarrow> is_string v | None \<Rightarrow> False"
    by (rule required_string [OF c]) simp_all
  have d: "case field ''dinner'' entry of Some v \<Rightarrow> is_string v | None \<Rightarrow> False"
    by (rule required_string [OF c]) simp_all
  have s: "case field ''snacks'' entry of Some v \<Rightarrow> is_string v | None \<Rightarrow> True"
  proof (cases "field ''snacks'' entry")
    case (Some v)
    from conforms_field [OF c Some] have "is_string v" by simp
    with Some show ?thesis by simp
  qed simp
  have k: "keys entry \<subseteq> {''breakfast'', ''lunch'', ''dinner'', ''snacks''}"
    using conforms_keys [OF c] by simp
  from b l d s k show ?thesis by (simp add: meal_entry_ok_def)
qed

lemma weekday_cases:
  "d \<in> set weekdays \<longleftrightarrow> d = ''Monday'' \<or> d = ''Tuesday'' \<or> d = ''Wednesday'' \<or>
     d = ''Thursday'' \<or> d = ''Friday'' \<or> d = ''Saturday'' \<or> d = ''Sunday''"
  by (simp add: weekdays_def)

lemma same_schema_every_day:
  assumes "d \<in> set weekdays"
  shows "map_of (map (\<lambda>d. (d, s)) weekdays) d = Some s"
  using assms by (simp add: map_of_map_restrict)

lemma seven_days:
  assumes c: "conforms (OBJECT (map (\<lambda>d. (d, s)) weekdays) weekdays) j"
  shows "keys j = set weekdays"
    and "d \<in> set weekdays \<Longrightarrow> \<exists>v. field d j = Some v \<and> conforms s v"
proof -
  from conforms_keys [OF c] show "keys j = set weekdays" by (auto simp add: image_iff)
  assume d: "d \<in> set weekdays"
  from conforms_required [OF c d] same_schema_every_day [OF d, of s]
  show "\<exists>v. field d j = Some v \<and> conforms s v" by auto
qed

lemma personalizedPlanSchema_eq:
  "personalizedPlanSchema = OBJECT
     [(''summary'', STRING),
      (''mealPlan'', OBJECT (map (\<lambda>d. (d, mealObjectSchema)) weekdays) weekdays),
      (''workoutPlan'', OBJECT (map (\<lambda>d. (d, STRING)) weekdays) weekdays)]
     [''summary'', ''mealPlan'', ''workoutPlan'']"
  by (simp add: personalizedPlanSchema_def weekdays_def)

lemma conforming_plan:
  assumes "conforms personalizedPlanSchema p"
  shows "seven_day_plan p"
proof -
  note c = assms [unfolded personalizedPlanSchema_eq]
  from conforms_required [OF c, of "''mealPlan''"]
  obtain mp where mp: "field ''mealPlan'' p = Some mp"
    and cmp: "conforms (OBJECT (map (\<lambda>d. (d, mealObjectSchema)) weekdays) weekdays) mp"
    by auto
  from conforms_required [OF c, of "''workoutPlan''"]
  obtain wp where wp: "field ''workoutPlan'' p = Some wp"
    and cwp: "conforms (OBJECT (map (\<lambda>d. (d, STRING)) weekdays) weekdays) wp"
    by auto
  have m: "case field d mp of Some entry \<Rightarrow> meal_entry_ok entry | None \<Rightarrow> False"
    if "d \<in> set weekdays" for d
    using seven_days(2) [OF cmp that] mealObjectSchema_entry by auto
  have w: "case field d wp of Some v \<Rightarrow> is_string v | None \<Rightarrow> False"
    if "d \<in> set weekdays" for d
    using seven_days(2) [OF cwp that] by auto
  from mp wp seven_days(1) [OF cmp] seven_days(1) [OF cwp] m w
  show ?thesis by (simp add: seven_day_plan_def list_all_iff)
qed

lemma example_plan_conforms: "conforms personalizedPlanSchema example_plan"
  by (simp add: personalizedPlanSchema_def example_plan_def example_day_def weekdays_def
      mealObjectSchema_def)

subsection \<open>Timestamps under a clock that never runs backwards\<close>

lemma stamped_analyze:
  assumes m: "mono (clock e)" and s: "stamped e w"
  shows "stamped e (snd (analyzeMealImage e b m w))"
proof (cases rule: analyzeMealImage_cases [where e=e and w=w and b=b and m=m])
  case (ok a)
  have 1: "clock e (ticks w) \<le> clock e (Suc (ticks w))"
    and 2: "clock e (ticks w) \<le> clock e (Suc (Suc (ticks w)))"
    and 3: "clock e (Suc (ticks w)) \<le> clock e (Suc (Suc (ticks w)))"
    using m by (simp_all add: monoD)
  from s 1 2 3 show ?thesis
    unfolding analyzeMealImage_success [OF ok] stamped_def newest_first_def
    by (fastforce)
next
  case (failed err)
  with s show ?thesis by (simp add: stamped_def)
qed

lemma stamped_generate:
  assumes m: "mono (clock e)" and s: "stamped e w"
  shows "stamped e (snd (generatePersonalizedPlan e ms g w))"
proof (cases rule: generatePersonalizedPlan_cases [where e=e and w=w and ms=ms and g=g])
  case (ok a)
  have 1: "clock e (ticks w) \<le> clock e (Suc (ticks w))"
    and 2: "clock e (ticks w) \<le> clock e (Suc (Suc (ticks w)))"
    and 3: "clock e (Suc (ticks w)) \<le> clock e (Suc (Suc (ticks w)))"
    using m by (simp_all add: monoD)
  from s 1 2 3 show ?thesis
    unfolding generatePersonalizedPlan_success [OF ok] stamped_def newest_first_def
    by (fastforce)
next
  case (failed err)
  with s show ?thesis by (simp add: stamped_def)
qed

lemma reachable_stamped:
  assumes "mono (clock e)" and "reachable e w"
  shows "stamped e w"
  using assms(2)
proof induction
  case start
  show ?case by (simp add: stamped_def initial_def newest_first_def)
next
  case (analyze w base64Image mimeType)
  with assms(1) show ?case by (simp add: stamped_analyze)
next
  case (generate w metrics' goal')
  with assms(1) show ?case by (simp add: stamped_generate)
next
  case (history w)
  then show ?case by (simp add: getHistory_def)
next
  case (clear w)
  then show ?case by (simp add: stamped_def clearHistory_def newest_first_def)
qed

lemma mono_replying: "mono (clock (replying j))"
  by (simp add: replying_def mono_def)

lemma answering_simps:
  "service (answering out) k = out" "clock (answering out) k = 1000 + int k"
  by (simp_all add: answering_def)

lemma example_metrics_valid:
  "validation_contract example_metrics ''lose 5kg'' \<and> validateForm example_metrics ''lose 5kg''"
  by (simp add: validation_contract_def integer_in_range_def positive_number_def
      validateForm_def newErrors_def example_metrics_def trim_def
      parseInt_def parseFloat_def signed_def startsWith_def isWhiteSpace_def
      isDigit_def decimalValue_def digitValue_def exponentPart_def scale10_def le_zero_def)

subsection \<open>The claims about the gateway\<close>

text \<open>
  C1 (as the code has it). The gateway does not check the reply against the schema: the
  plan \<^verbatim>\<open>generatePersonalizedPlan\<close> returns is the value parsed from the reply, as it
  is, and the request it sent carries \<^verbatim>\<open>personalizedPlanSchema\<close>. Whenever the reply
  conforms to that schema, the plan has a \<^verbatim>\<open>mealPlan\<close> and a \<^verbatim>\<open>workoutPlan\<close> with exactly
  the seven weekday keys, every meal entry holding breakfast, lunch and dinner strings
  and at most a snacks string besides, every workout entry a string.
\<close>

theorem plan_is_the_parsed_reply:
  assumes "generatePersonalizedPlan e ms g w = (Inr p, w')"
  shows "service e (length (sent w)) = Responds (Some (Encodes p)) \<and>
         sent w' = sent w @ [plan_request ms g] \<and>
         responseSchema (plan_request ms g) = personalizedPlanSchema \<and>
         (conforms personalizedPlanSchema p \<longrightarrow> seven_day_plan p)"
proof (cases "\<exists>x. service e (length (sent w)) = Responds (Some (Encodes x))")
  case True
  then obtain x where x: "service e (length (sent w)) = Responds (Some (Encodes x))" ..
  from generatePersonalizedPlan_success [OF x, of ms g] assms
  have "x = p" and "sent w' = sent w @ [plan_request ms g]" by auto
  with x conforming_plan show ?thesis by (simp add: plan_request_def)
next
  case False
  then have "\<forall>a. service e (length (sent w)) \<noteq> Responds (Some (Encodes a))" by simp
  from generatePersonalizedPlan_failure [OF this, of ms g] assms show ?thesis by auto
qed

theorem plan_is_the_parsed_reply_witness:
  "generatePersonalizedPlan (replying example_plan) example_metrics ''lose 5kg'' initial
     = (Inr example_plan,
        snd (generatePersonalizedPlan (replying example_plan) example_metrics ''lose 5kg'' initial)) \<and>
   conforms personalizedPlanSchema example_plan \<and>
   seven_day_plan example_plan"
proof -
  let ?r = "generatePersonalizedPlan (replying example_plan) example_metrics ''lose 5kg'' initial"
  have ok: "?r = (Inr example_plan, snd ?r)"
    by (simp add: generatePersonalizedPlan_success replying_def)
  from plan_is_the_parsed_reply [OF ok] example_plan_conforms ok
  show ?thesis by simp
qed

text \<open>
  C1 as stated fails: the input of the specification's example is valid, by its contract
  and by \<^verbatim>\<open>validateForm\<close>, yet for a service that replies \<^verbatim>\<open>{}\<close> the call succeeds and
  returns a plan with no \<^verbatim>\<open>mealPlan\<close> at all.
\<close>

theorem unvalidated_plan_counterexample:
  "validation_contract example_metrics ''lose 5kg'' \<and>
   validateForm example_metrics ''lose 5kg'' \<and>
   fst (generatePersonalizedPlan (replying (JObj [])) example_metrics ''lose 5kg'' initial)
     = Inr (JObj []) \<and>
   \<not> seven_day_plan (JObj [])"
  using example_metrics_valid
  by (simp add: generatePersonalizedPlan_success replying_def initial_def seven_day_plan_def)

text \<open>
  C2 (as the code has it). A successful \<^verbatim>\<open>analyzeMealImage\<close> puts exactly one entry at
  the front of the meals history. Its id is \<^verbatim>\<open>meal-\<close> followed by one reading of the
  clock, its timestamp is the next reading of the clock, its \<^verbatim>\<open>nutritionalInfo\<close> is the
  parsed reply and its \<^verbatim>\<open>imageDataUrl\<close> is the data URL of the MIME type and the base64
  payload. The id's suffix is the stored timestamp when both readings agree. When the
  clock never runs backwards, the timestamps of the history reached from the initial
  state do not decrease in insertion order.
\<close>

theorem analyzeMealImage_records:
  assumes "analyzeMealImage e base64Image mimeType w = (Inr analysis, w')"
  shows "\<exists>item. meals (mockDb w') = item # meals (mockDb w) \<and>
           id' item = ''meal-'' @ String (clock e (ticks w)) \<and>
           timestamp item = clock e (Suc (ticks w)) \<and>
           nutritionalInfo item = analysis \<and>
           imageDataUrl item = ''data:'' @ mimeType @ '';base64,'' @ base64Image \<and>
           (clock e (ticks w) = clock e (Suc (ticks w)) \<longrightarrow>
              id' item = ''meal-'' @ String (timestamp item)) \<and>
           (mono (clock e) \<and> reachable e w \<longrightarrow> newest_first (meals (mockDb w')))"
proof (cases rule: analyzeMealImage_cases [where e=e and w=w and b=base64Image and m=mimeType])
  case (ok a)
  note eq = analyzeMealImage_success [OF ok, of base64Image mimeType]
  from eq assms have a: "a = analysis" and w': "w' = snd (analyzeMealImage e base64Image mimeType w)"
    by simp_all
  have "newest_first (meals (mockDb w'))" if "mono (clock e)" and "reachable e w"
  proof -
    from that have "stamped e w" by (rule reachable_stamped)
    with that(1) have "stamped e w'" unfolding w' by (rule stamped_analyze)
    then show ?thesis by (simp add: stamped_def)
  qed
  with eq assms a show ?thesis by auto
next
  case (failed err)
  with assms show ?thesis by simp
qed

theorem analyzeMealImage_records_witness:
  "analyzeMealImage (replying JNull) ''QUJD'' ''image/png'' initial =
     (Inr JNull, snd (analyzeMealImage (replying JNull) ''QUJD'' ''image/png'' initial)) \<and>
   mono (clock (replying JNull)) \<and> reachable (replying JNull) initial \<and>
   meals (mockDb (snd (analyzeMealImage (replying JNull) ''QUJD'' ''image/png'' initial))) =
     [\<lparr>id' = ''meal-1000'', timestamp = 1001, nutritionalInfo = JNull,
       imageDataUrl = ''data:image/png;base64,QUJD''\<rparr>] \<and>
   newest_first (meals (mockDb (snd (analyzeMealImage (replying JNull) ''QUJD'' ''image/png'' initial))))"
proof -
  let ?r = "analyzeMealImage (replying JNull) ''QUJD'' ''image/png'' initial"
  have ok: "?r = (Inr JNull, snd ?r)"
    by (simp add: analyzeMealImage_success replying_def)
  have m: "mono (clock (replying JNull))" by (rule mono_replying)
  have r: "reachable (replying JNull) initial" by (rule reachable.start)
  have i: "meals (mockDb initial) = []" by (simp add: initial_def)
  have c: "clock (replying JNull) (ticks initial) = 1000"
    "clock (replying JNull) (Suc (ticks initial)) = 1001"
    by (simp_all add: replying_def initial_def)
  have s: "String 1000 = ''1000''" by (simp add: String_def decimal.simps digit_def)
  from analyzeMealImage_records [OF ok] m r ok i c s show ?thesis
    by (auto simp add: MealHistoryItem.equality)
qed

text \<open>
  C2 as stated fails: the id and the timestamp come from two readings of the clock. When
  the clock ticks between them, the id's suffix is not the stored timestamp. And when the
  clock is set back between two calls, the later entry has the earlier timestamp.
\<close>

theorem two_clock_readings_counterexample:
  "id' (hd (meals (mockDb (snd (analyzeMealImage (replying JNull) ''QUJD'' ''image/png'' initial)))))
     = ''meal-1000'' \<and>
   timestamp (hd (meals (mockDb (snd (analyzeMealImage (replying JNull) ''QUJD'' ''image/png'' initial)))))
     = 1001 \<and>
   String 1001 \<noteq> ''1000'' \<and>
   map timestamp (meals (mockDb (snd (analyzeMealImage rewinding ''QUJD'' ''image/png''
     (snd (analyzeMealImage rewinding ''QUJD'' ''image/png'' initial)))))) = [997, 999] \<and>
   \<not> newest_first (meals (mockDb (snd (analyzeMealImage rewinding ''QUJD'' ''image/png''
     (snd (analyzeMealImage rewinding ''QUJD'' ''image/png'' initial))))))"
proof -
  have r: "service rewinding k = Responds (Some (Encodes JNull))" for k
    by (simp add: rewinding_def)
  have c: "clock rewinding k = 1000 - int k" for k
    by (simp add: rewinding_def)
  show ?thesis
    by (simp add: analyzeMealImage_success r c replying_def initial_def String_def decimal.simps
        digit_def newest_first_def)
qed

text \<open>
  C3 (as the code has it). A call of \<^verbatim>\<open>analyzeMealImage\<close> or
  \<^verbatim>\<open>generatePersonalizedPlan\<close> fails exactly when the request throws, the response has no
  text, or the text is not JSON text; the error is then that of the request, a
  \<^verbatim>\<open>TypeError\<close>, or a \<^verbatim>\<open>SyntaxError\<close>. The state after a failed call is the state before
  it with the one request added to those sent: the history is unchanged, nothing is
  written in part, the clock is not read and no second request is made. A reply that is
  JSON text is returned as parsed and is put at the front of the history.
\<close>

theorem failure_leaves_history:
  "((\<exists>err. fst (analyzeMealImage e base64Image mimeType w) = Inl err) \<longleftrightarrow>
      (\<forall>a. service e (length (sent w)) \<noteq> Responds (Some (Encodes a)))) \<and>
   ((\<exists>err. fst (analyzeMealImage e base64Image mimeType w) = Inl err) \<longrightarrow>
      snd (analyzeMealImage e base64Image mimeType w) =
        w\<lparr>sent := sent w @ [analysis_request base64Image mimeType]\<rparr>) \<and>
   (service e (length (sent w)) = Throws \<longrightarrow>
      fst (analyzeMealImage e base64Image mimeType w) = Inl ServiceError) \<and>
   (service e (length (sent w)) = Responds None \<longrightarrow>
      fst (analyzeMealImage e base64Image mimeType w) = Inl TypeError) \<and>
   (service e (length (sent w)) = Responds (Some EmptyText) \<or>
    service e (length (sent w)) = Responds (Some Garbled) \<longrightarrow>
      fst (analyzeMealImage e base64Image mimeType w) = Inl SyntaxError) \<and>
   (service e (length (sent w)) = Responds (Some (Encodes a)) \<longrightarrow>
      fst (analyzeMealImage e base64Image mimeType w) = Inr a \<and>
      map nutritionalInfo (meals (mockDb (snd (analyzeMealImage e base64Image mimeType w)))) =
        a # map nutritionalInfo (meals (mockDb w))) \<and>
   ((\<exists>err. fst (generatePersonalizedPlan e metrics' goal' w) = Inl err) \<longleftrightarrow>
      (\<forall>a. service e (length (sent w)) \<noteq> Responds (Some (Encodes a)))) \<and>
   ((\<exists>err. fst (generatePersonalizedPlan e metrics' goal' w) = Inl err) \<longrightarrow>
      snd (generatePersonalizedPlan e metrics' goal' w) =
        w\<lparr>sent := sent w @ [plan_request metrics' goal']\<rparr>) \<and>
   (service e (length (sent w)) = Throws \<longrightarrow>
      fst (generatePersonalizedPlan e metrics' goal' w) = Inl ServiceError) \<and>
   (service e (length (sent w)) = Responds None \<longrightarrow>
      fst (generatePersonalizedPlan e metrics' goal' w) = Inl TypeError) \<and>
   (service e (length (sent w)) = Responds (Some EmptyText) \<or>
    service e (length (sent w)) = Responds (Some Garbled) \<longrightarrow>
      fst (generatePersonalizedPlan e metrics' goal' w) = Inl SyntaxError) \<and>
   (service e (length (sent w)) = Responds (Some (Encodes a)) \<longrightarrow>
      fst (generatePersonalizedPlan e metrics' goal' w) = Inr a \<and>
      map plan (plans (mockDb (snd (generatePersonalizedPlan e metrics' goal' w)))) =
        a # map plan (plans (mockDb w)))"
proof -
  let ?k = "length (sent w)"
  have old: "((\<exists>err. fst (analyzeMealImage e base64Image mimeType w) = Inl err) \<longleftrightarrow>
      (\<forall>a. service e ?k \<noteq> Responds (Some (Encodes a)))) \<and>
   ((\<exists>err. fst (analyzeMealImage e base64Image mimeType w) = Inl err) \<longrightarrow>
      snd (analyzeMealImage e base64Image mimeType w) =
        w\<lparr>sent := sent w @ [analysis_request base64Image mimeType]\<rparr>) \<and>
   ((\<exists>err. fst (generatePersonalizedPlan e metrics' goal' w) = Inl err) \<longleftrightarrow>
      (\<forall>a. service e ?k \<noteq> Responds (Some (Encodes a)))) \<and>
   ((\<exists>err. fst (generatePersonalizedPlan e metrics' goal' w) = Inl err) \<longrightarrow>
      snd (generatePersonalizedPlan e metrics' goal' w) =
        w\<lparr>sent := sent w @ [plan_request metrics' goal']\<rparr>)"
  proof (cases "\<exists>a. service e ?k = Responds (Some (Encodes a))")
    case True
    then obtain a where a: "service e ?k = Responds (Some (Encodes a))" ..
    show ?thesis
      unfolding analyzeMealImage_success [OF a] generatePersonalizedPlan_success [OF a]
      using a by simp
  next
    case False
    then have f: "\<forall>a. service e ?k \<noteq> Responds (Some (Encodes a))" by simp
    from analyzeMealImage_failure [OF f, of base64Image mimeType]
      generatePersonalizedPlan_failure [OF f, of metrics' goal'] f
    show ?thesis by auto
  qed
  have A3: "service e ?k = Throws \<longrightarrow>
      fst (analyzeMealImage e base64Image mimeType w) = Inl ServiceError"
    by (simp add: analyzeMealImage_def generateContent_eq)
  have A4: "service e ?k = Responds None \<longrightarrow>
      fst (analyzeMealImage e base64Image mimeType w) = Inl TypeError"
    by (simp add: analyzeMealImage_def generateContent_eq)
  have A5: "service e ?k = Responds (Some EmptyText) \<or> service e ?k = Responds (Some Garbled) \<longrightarrow>
      fst (analyzeMealImage e base64Image mimeType w) = Inl SyntaxError"
    by (auto simp add: analyzeMealImage_def generateContent_eq)
  have A6: "service e ?k = Responds (Some (Encodes a)) \<longrightarrow>
      fst (analyzeMealImage e base64Image mimeType w) = Inr a \<and>
      map nutritionalInfo (meals (mockDb (snd (analyzeMealImage e base64Image mimeType w)))) =
        a # map nutritionalInfo (meals (mockDb w))"
    by (simp add: analyzeMealImage_success)
  have P3: "service e ?k = Throws \<longrightarrow>
      fst (generatePersonalizedPlan e metrics' goal' w) = Inl ServiceError"
    by (simp add: generatePersonalizedPlan_def generateContent_eq)
  have P4: "service e ?k = Responds None \<longrightarrow>
      fst (generatePersonalizedPlan e metrics' goal' w) = Inl TypeError"
    by (simp add: generatePersonalizedPlan_def generateContent_eq)
  have P5: "service e ?k = Responds (Some EmptyText) \<or> service e ?k = Responds (Some Garbled) \<longrightarrow>
      fst (generatePersonalizedPlan e metrics' goal' w) = Inl SyntaxError"
    by (auto simp add: generatePersonalizedPlan_def generateContent_eq)
  have P6: "service e ?k = Responds (Some (Encodes a)) \<longrightarrow>
      fst (generatePersonalizedPlan e metrics' goal' w) = Inr a \<and>
      map plan (plans (mockDb (snd (generatePersonalizedPlan e metrics' goal' w)))) =
        a # map plan (plans (mockDb w))"
    by (simp add: generatePersonalizedPlan_success)
  from old A3 A4 A5 A6 P3 P4 P5 P6 show ?thesis by blast
qed

theorem failure_leaves_history_witness:
  "fst (analyzeMealImage (answering Throws) ''QUJD'' ''image/png'' initial) = Inl ServiceError \<and>
   snd (analyzeMealImage (answering Throws) ''QUJD'' ''image/png'' initial) =
     initial\<lparr>sent := [analysis_request ''QUJD'' ''image/png'']\<rparr> \<and>
   fst (analyzeMealImage (answering (Responds None)) ''QUJD'' ''image/png'' initial) = Inl TypeError \<and>
   fst (analyzeMealImage (answering (Responds (Some Garbled))) ''QUJD'' ''image/png'' initial)
     = Inl SyntaxError \<and>
   fst (analyzeMealImage (answering (Responds (Some EmptyText))) ''QUJD'' ''image/png'' initial)
     = Inl SyntaxError \<and>
   fst (analyzeMealImage (answering (Responds (Some (Encodes (JObj []))))) ''QUJD'' ''image/png'' initial)
     = Inr (JObj []) \<and>
   fst (generatePersonalizedPlan (answering Throws) example_metrics ''lose 5kg'' initial)
     = Inl ServiceError \<and>
   snd (generatePersonalizedPlan (answering Throws) example_metrics ''lose 5kg'' initial) =
     initial\<lparr>sent := [plan_request example_metrics ''lose 5kg'']\<rparr> \<and>
   fst (generatePersonalizedPlan (answering (Responds None)) example_metrics ''lose 5kg'' initial)
     = Inl TypeError \<and>
   fst (generatePersonalizedPlan (answering (Responds (Some Garbled))) example_metrics ''lose 5kg'' initial)
     = Inl SyntaxError \<and>
   fst (generatePersonalizedPlan (answering (Responds (Some (Encodes (JObj []))))) example_metrics
     ''lose 5kg'' initial) = Inr (JObj [])"
proof -
  have s: "sent initial = []" by (simp add: initial_def)
  note T = failure_leaves_history [where w = initial and base64Image = "''QUJD''"
      and mimeType = "''image/png''" and metrics' = example_metrics and goal' = "''lose 5kg''"]
  note t = T [where e = "answering Throws"]
  note n = T [where e = "answering (Responds None)"]
  note g = T [where e = "answering (Responds (Some Garbled))"]
  note b = T [where e = "answering (Responds (Some EmptyText))"]
  note j = T [where e = "answering (Responds (Some (Encodes (JObj []))))" and a = "JObj []"]
  have 1: "fst (analyzeMealImage (answering Throws) ''QUJD'' ''image/png'' initial) = Inl ServiceError"
    "fst (generatePersonalizedPlan (answering Throws) example_metrics ''lose 5kg'' initial)
       = Inl ServiceError"
    using t by (simp_all add: answering_simps)
  have 2: "snd (analyzeMealImage (answering Throws) ''QUJD'' ''image/png'' initial) =
     initial\<lparr>sent := [analysis_request ''QUJD'' ''image/png'']\<rparr>"
    "snd (generatePersonalizedPlan (answering Throws) example_metrics ''lose 5kg'' initial) =
     initial\<lparr>sent := [plan_request example_metrics ''lose 5kg'']\<rparr>"
    using t 1 s by simp_all
  have 3: "fst (analyzeMealImage (answering (Responds None)) ''QUJD'' ''image/png'' initial) = Inl TypeError"
    "fst (generatePersonalizedPlan (answering (Responds None)) example_metrics ''lose 5kg'' initial)
       = Inl TypeError"
    using n by (simp_all add: answering_simps)
  have 4: "fst (analyzeMealImage (answering (Responds (Some Garbled))) ''QUJD'' ''image/png'' initial)
       = Inl SyntaxError"
    "fst (generatePersonalizedPlan (answering (Responds (Some Garbled))) example_metrics ''lose 5kg'' initial)
       = Inl SyntaxError"
    using g by (simp_all add: answering_simps)
  have 5: "fst (analyzeMealImage (answering (Responds (Some EmptyText))) ''QUJD'' ''image/png'' initial)
       = Inl SyntaxError"
    using b by (simp add: answering_simps)
  have 6: "fst (analyzeMealImage (answering (Responds (Some (Encodes (JObj []))))) ''QUJD'' ''image/png'' initial)
       = Inr (JObj [])"
    "fst (generatePersonalizedPlan (answering (Responds (Some (Encodes (JObj []))))) example_metrics
       ''lose 5kg'' initial) = Inr (JObj [])"
    using j by (simp_all add: answering_simps)
  from 1 2 3 4 5 6 show ?thesis by blast
qed

text \<open>
  C3 as stated fails: a reply that is JSON text but does not match the schema is not a
  failure. The reply \<^verbatim>\<open>{}\<close> does not conform to \<^verbatim>\<open>nutritionalInfoSchema\<close>, yet the call
  succeeds and the meals history grows by one entry.
\<close>

theorem unvalidated_reply_counterexample:
  "\<not> conforms nutritionalInfoSchema (JObj []) \<and>
   fst (analyzeMealImage (replying (JObj [])) ''QUJD'' ''image/png'' initial) = Inr (JObj []) \<and>
   length (meals (mockDb (snd (analyzeMealImage (replying (JObj [])) ''QUJD'' ''image/png'' initial))))
     = Suc (length (meals (mockDb initial)))"
  by (simp add: analyzeMealImage_success replying_def nutritionalInfoSchema_def)

text \<open>
  C4. \<^verbatim>\<open>clearHistory\<close> is total, so it never fails. From every state it leaves both
  collections empty, \<^verbatim>\<open>getHistory\<close> after it returns \<^verbatim>\<open>{meals: [], plans: []}\<close>, and
  running it twice gives the state that running it once gives.
\<close>

theorem clearHistory_resets:
  "clearHistory (clearHistory w) = clearHistory w \<and>
   mockDb (clearHistory w) = \<lparr>meals = [], plans = []\<rparr> \<and>
   getHistory (clearHistory w) = (Inr \<lparr>meals = [], plans = []\<rparr>, clearHistory w)"
  by (simp add: clearHistory_def getHistory_def stringify_history_def)

theorem clearHistory_resets_witness:
  "getHistory (clearHistory (snd (analyzeMealImage (replying JNull) ''QUJD'' ''image/png'' initial))) =
     (Inr \<lparr>meals = [], plans = []\<rparr>,
      clearHistory (snd (analyzeMealImage (replying JNull) ''QUJD'' ''image/png'' initial)))"
  using clearHistory_resets [of "snd (analyzeMealImage (replying JNull) ''QUJD'' ''image/png'' initial)"]
  by simp

text \<open>
  C10. A successful \<^verbatim>\<open>analyzeMealImage\<close> leaves the plans collection as it was, and a
  successful \<^verbatim>\<open>generatePersonalizedPlan\<close> leaves the meals collection as it was.
\<close>

theorem frame:
  "(analyzeMealImage e b m w = (Inr a, w') \<longrightarrow> plans (mockDb w') = plans (mockDb w)) \<and>
   (generatePersonalizedPlan e ms g w = (Inr p, w'') \<longrightarrow> meals (mockDb w'') = meals (mockDb w))"
proof (intro conjI impI)
  assume ok: "analyzeMealImage e b m w = (Inr a, w')"
  show "plans (mockDb w') = plans (mockDb w)"
  proof (cases "\<exists>x. service e (length (sent w)) = Responds (Some (Encodes x))")
    case True
    then obtain x where "service e (length (sent w)) = Responds (Some (Encodes x))" ..
    from analyzeMealImage_success [OF this, of b m] ok show ?thesis by auto
  next
    case False
    then have "\<forall>a. service e (length (sent w)) \<noteq> Responds (Some (Encodes a))" by simp
    from analyzeMealImage_failure [OF this, of b m] ok show ?thesis by auto
  qed
next
  assume ok: "generatePersonalizedPlan e ms g w = (Inr p, w'')"
  show "meals (mockDb w'') = meals (mockDb w)"
  proof (cases "\<exists>x. service e (length (sent w)) = Responds (Some (Encodes x))")
    case True
    then obtain x where "service e (length (sent w)) = Responds (Some (Encodes x))" ..
    from generatePersonalizedPlan_success [OF this, of ms g] ok show ?thesis by auto
  next
    case False
    then have "\<forall>a. service e (length (sent w)) \<noteq> Responds (Some (Encodes a))" by simp
    from generatePersonalizedPlan_failure [OF this, of ms g] ok show ?thesis by auto
  qed
qed

theorem frame_witness:
  "analyzeMealImage (replying JNull) ''QUJD'' ''image/png'' initial =
     (Inr JNull, snd (analyzeMealImage (replying JNull) ''QUJD'' ''image/png'' initial)) \<and>
   plans (mockDb (snd (analyzeMealImage (replying JNull) ''QUJD'' ''image/png'' initial))) =
     plans (mockDb initial) \<and>
   generatePersonalizedPlan (replying JNull) example_metrics ''lose 5kg'' initial =
     (Inr JNull, snd (generatePersonalizedPlan (replying JNull) example_metrics ''lose 5kg'' initial)) \<and>
   meals (mockDb (snd (generatePersonalizedPlan (replying JNull) example_metrics ''lose 5kg'' initial))) =
     meals (mockDb initial)"
proof -
  let ?a = "analyzeMealImage (replying JNull) ''QUJD'' ''image/png'' initial"
  let ?p = "generatePersonalizedPlan (replying JNull) example_metrics ''lose 5kg'' initial"
  have a: "?a = (Inr JNull, snd ?a)"
    by (simp add: analyzeMealImage_success replying_def)
  have p: "?p = (Inr JNull, snd ?p)"
    by (simp add: generatePersonalizedPlan_success replying_def)
  from frame [of "replying JNull" "''QUJD''" "''image/png''" initial JNull "snd ?a"
      example_metrics "''lose 5kg''" JNull "snd ?p"] a p
  show ?thesis by simp
qed

section \<open>Properties of authentication and session persistence\<close>

lemma find_email:
  "find (\<lambda>u. email u = e) db = None \<longleftrightarrow> \<not> (\<exists>u\<in>set db. email u = e)"
  by (auto simp add: find_None_iff)

lemma find_email_Some:
  "find (\<lambda>u. email u = e) db = Some u \<Longrightarrow> u \<in> set db \<and> email u = e"
  by (auto simp add: find_Some_iff)

lemma getUserDb_setUserDb: "getUserDb (setUserDb db ls) = Inr db"
  by (simp add: getUserDb_def setUserDb_def)

lemma getUserDb_handleLogin: "getUserDb (snd (handleLogin u (app, ls))) = getUserDb ls"
  by (simp add: getUserDb_def handleLogin_def)

lemma find_appended:
  "\<not> (\<exists>u\<in>set db. email u = e) \<Longrightarrow>
   find (\<lambda>u. email u = e) (db @ [\<lparr>name = n, email = e\<rparr>]) = Some \<lparr>name = n, email = e\<rparr>"
  by (induction db) simp_all

lemma Register_alice:
  "Register ''Alice'' ''alice@x.com'' ''pw1'' (App_start, fresh_storage) = Inr (None, alice_session)"
  by (simp add: Register_def handleSubmit_def getUserDb_def fresh_storage_def setUserDb_def
      handleLogin_def App_start_def alice_session_def alice_def JSON_stringify_def User_json_def)

lemma Register_success_D:
  assumes "Register n e p' (app, ls) = Inr (None, st')"
  shows "\<exists>db. getUserDb ls = Inr db \<and> \<not> (\<exists>u\<in>set db. email u = e) \<and>
    st' = handleLogin \<lparr>name = n, email = e\<rparr> (app, setUserDb (db @ [\<lparr>name = n, email = e\<rparr>]) ls)"
  using assms
  by (auto simp add: Register_def handleSubmit_def list_ex_iff Let_def
      split: if_splits sum.splits)

lemma Login_after_Register:
  assumes r: "Register n e p' st = Inr (None, app', ls')" and p: "p \<noteq> []"
  shows "Login e p (app0, ls'\<lparr>user_item := item\<rparr>) =
     Inr (None, app0\<lparr>user := User_json \<lparr>name = n, email = e\<rparr>\<rparr>,
          ls'\<lparr>user_item := Some (Encodes (User_json \<lparr>name = n, email = e\<rparr>))\<rparr>)"
proof -
  obtain app ls where st: "st = (app, ls)" by (cases st)
  from r st Register_success_D [of n e p' app ls "(app', ls')"]
  obtain db where new: "\<not> (\<exists>u\<in>set db. email u = e)"
    and st': "(app', ls') = handleLogin \<lparr>name = n, email = e\<rparr>
        (app, setUserDb (db @ [\<lparr>name = n, email = e\<rparr>]) ls)"
    by blast
  from r st have e: "e \<noteq> []"
    by (auto simp add: Register_def handleSubmit_def split: if_splits)
  from st' have g: "getUserDb (ls'\<lparr>user_item := item\<rparr>) = Inr (db @ [\<lparr>name = n, email = e\<rparr>])"
    by (simp add: handleLogin_def getUserDb_def setUserDb_def)
  from p e g find_appended [OF new, of n]
  show ?thesis
    by (simp add: Login_def handleSubmit_def handleLogin_def JSON_stringify_def User_json_def)
qed

lemma Register_stores:
  assumes r: "Register n e p' st = Inr (None, app', ls')"
  shows "\<exists>db. getUserDb (snd st) = Inr db \<and> getUserDb ls' = Inr (db @ [\<lparr>name = n, email = e\<rparr>]) \<and>
           user_item ls' = Some (Encodes (User_json \<lparr>name = n, email = e\<rparr>))"
proof -
  obtain app ls where st: "st = (app, ls)" by (cases st)
  from r st Register_success_D [of n e p' app ls "(app', ls')"]
  obtain db where db: "getUserDb ls = Inr db"
    and st': "(app', ls') = handleLogin \<lparr>name = n, email = e\<rparr>
        (app, setUserDb (db @ [\<lparr>name = n, email = e\<rparr>]) ls)"
    by blast
  from st' have "getUserDb ls' = Inr (db @ [\<lparr>name = n, email = e\<rparr>])"
    and "user_item ls' = Some (Encodes (User_json \<lparr>name = n, email = e\<rparr>))"
    by (simp_all add: handleLogin_def getUserDb_def setUserDb_def JSON_stringify_def User_json_def)
  with db st show ?thesis by simp
qed

text \<open>
  C6. Let \<open>db\<close> be the local user list, as \<^verbatim>\<open>getUserDb\<close> reads it. Register shows a
  message and changes nothing exactly when a field is empty or \<open>db\<close> has a user with the
  same email, in which case the message says that the account already exists; otherwise
  it appends \<^verbatim>\<open>{name, email}\<close> to the list and makes it the session user. Login shows a
  message and changes nothing exactly when the email or the password is empty or \<open>db\<close>
  has no user with that email, in which case the message says that no account was found;
  otherwise it makes the first user of \<open>db\<close> with that email the session user.
\<close>

theorem mock_authentication:
  assumes "getUserDb ls = Inr db"
  shows
   "((\<exists>msg. Register n e p (app, ls) = Inr (Some msg, app, ls)) \<longleftrightarrow>
       (n = [] \<or> e = [] \<or> p = [] \<or> (\<exists>u\<in>set db. email u = e))) \<and>
    (n \<noteq> [] \<and> e \<noteq> [] \<and> p \<noteq> [] \<and> (\<exists>u\<in>set db. email u = e) \<longrightarrow>
       Register n e p (app, ls) =
         Inr (Some ''An account with this email already exists.'', app, ls)) \<and>
    (\<not> (n = [] \<or> e = [] \<or> p = [] \<or> (\<exists>u\<in>set db. email u = e)) \<longrightarrow>
       (\<exists>app' ls'. Register n e p (app, ls) = Inr (None, app', ls') \<and>
          getUserDb ls' = Inr (db @ [\<lparr>name = n, email = e\<rparr>]) \<and>
          user app' = User_json \<lparr>name = n, email = e\<rparr> \<and>
          user_item ls' = Some (Encodes (User_json \<lparr>name = n, email = e\<rparr>)))) \<and>
    ((\<exists>msg. Login e p (app, ls) = Inr (Some msg, app, ls)) \<longleftrightarrow>
       (e = [] \<or> p = [] \<or> \<not> (\<exists>u\<in>set db. email u = e))) \<and>
    (e \<noteq> [] \<and> p \<noteq> [] \<and> \<not> (\<exists>u\<in>set db. email u = e) \<longrightarrow>
       Login e p (app, ls) =
         Inr (Some ''No account found with that email. Please register.'', app, ls)) \<and>
    (\<not> (e = [] \<or> p = [] \<or> \<not> (\<exists>u\<in>set db. email u = e)) \<longrightarrow>
       (\<exists>u app' ls'. Login e p (app, ls) = Inr (None, app', ls') \<and>
          find (\<lambda>u. email u = e) db = Some u \<and> u \<in> set db \<and> email u = e \<and>
          user app' = User_json u \<and>
          user_item ls' = Some (Encodes (User_json u))))"
proof -
  have R: "Register n e p (app, ls) =
      (if n = [] \<or> e = [] \<or> p = [] then Inr (Some ''Please fill all fields.'', app, ls)
       else if \<exists>u\<in>set db. email u = e
         then Inr (Some ''An account with this email already exists.'', app, ls)
         else Inr (None, handleLogin \<lparr>name = n, email = e\<rparr>
                (app, setUserDb (db @ [\<lparr>name = n, email = e\<rparr>]) ls)))"
    using assms by (simp add: Register_def handleSubmit_def list_ex_iff Let_def)
  have L: "Login e p (app, ls) =
      (if e = [] \<or> p = [] then Inr (Some ''Please enter email and password.'', app, ls)
       else case find (\<lambda>u. email u = e) db of
              Some u \<Rightarrow> Inr (None, handleLogin u (app, ls))
            | None \<Rightarrow> Inr (Some ''No account found with that email. Please register.'', app, ls))"
    using assms by (simp add: Login_def handleSubmit_def)
  have 1: "(\<exists>msg. Register n e p (app, ls) = Inr (Some msg, app, ls)) \<longleftrightarrow>
       (n = [] \<or> e = [] \<or> p = [] \<or> (\<exists>u\<in>set db. email u = e))"
    unfolding R by auto
  have 2: "n \<noteq> [] \<and> e \<noteq> [] \<and> p \<noteq> [] \<and> (\<exists>u\<in>set db. email u = e) \<longrightarrow>
       Register n e p (app, ls) =
         Inr (Some ''An account with this email already exists.'', app, ls)"
    unfolding R by simp
  have 3: "\<not> (n = [] \<or> e = [] \<or> p = [] \<or> (\<exists>u\<in>set db. email u = e)) \<longrightarrow>
       (\<exists>app' ls'. Register n e p (app, ls) = Inr (None, app', ls') \<and>
          getUserDb ls' = Inr (db @ [\<lparr>name = n, email = e\<rparr>]) \<and>
          user app' = User_json \<lparr>name = n, email = e\<rparr> \<and>
          user_item ls' = Some (Encodes (User_json \<lparr>name = n, email = e\<rparr>)))"
    unfolding R
    by (simp add: handleLogin_def getUserDb_def setUserDb_def JSON_stringify_def User_json_def)
  have 4: "(\<exists>msg. Login e p (app, ls) = Inr (Some msg, app, ls)) \<longleftrightarrow>
       (e = [] \<or> p = [] \<or> \<not> (\<exists>u\<in>set db. email u = e))"
    unfolding L by (auto simp add: find_email split: option.splits dest: find_email_Some)
  have 5: "e \<noteq> [] \<and> p \<noteq> [] \<and> \<not> (\<exists>u\<in>set db. email u = e) \<longrightarrow>
       Login e p (app, ls) =
         Inr (Some ''No account found with that email. Please register.'', app, ls)"
  proof
    assume a: "e \<noteq> [] \<and> p \<noteq> [] \<and> \<not> (\<exists>u\<in>set db. email u = e)"
    then have "find (\<lambda>u. email u = e) db = None" by (simp add: find_email)
    with a show "Login e p (app, ls) =
         Inr (Some ''No account found with that email. Please register.'', app, ls)"
      unfolding L by simp
  qed
  have 6: "\<not> (e = [] \<or> p = [] \<or> \<not> (\<exists>u\<in>set db. email u = e)) \<longrightarrow>
       (\<exists>u app' ls'. Login e p (app, ls) = Inr (None, app', ls') \<and>
          find (\<lambda>u. email u = e) db = Some u \<and> u \<in> set db \<and> email u = e \<and>
          user app' = User_json u \<and>
          user_item ls' = Some (Encodes (User_json u)))"
  proof
    assume a: "\<not> (e = [] \<or> p = [] \<or> \<not> (\<exists>u\<in>set db. email u = e))"
    then obtain u where u: "find (\<lambda>u. email u = e) db = Some u"
      using find_email [of e db] by auto
    from find_email_Some [OF u] have m: "u \<in> set db" "email u = e" by simp_all
    from a u have "Login e p (app, ls) = Inr (None, handleLogin u (app, ls))"
      unfolding L by simp
    with u m show "\<exists>u app' ls'. Login e p (app, ls) = Inr (None, app', ls') \<and>
          find (\<lambda>u. email u = e) db = Some u \<and> u \<in> set db \<and> email u = e \<and>
          user app' = User_json u \<and>
          user_item ls' = Some (Encodes (User_json u))"
      by (simp add: handleLogin_def JSON_stringify_def User_json_def)
  qed
  from 1 2 3 4 5 6 show ?thesis by blast
qed

theorem mock_authentication_witness:
  "getUserDb fresh_storage = Inr [] \<and>
   getUserDb alice_registered = Inr [alice] \<and>
   Register ''Alice'' ''alice@x.com'' ''pw1'' (App_start, fresh_storage) = Inr (None, alice_session) \<and>
   Register ''Alia'' ''alice@x.com'' ''pw2'' (App_start, alice_registered) =
     Inr (Some ''An account with this email already exists.'', App_start, alice_registered) \<and>
   Login ''alice@x.com'' ''pw1'' (App_start, fresh_storage) =
     Inr (Some ''No account found with that email. Please register.'', App_start, fresh_storage) \<and>
   (\<exists>app' ls'. Login ''alice@x.com'' ''pw1'' (App_start, alice_registered) = Inr (None, app', ls') \<and>
      user app' = User_json alice)"
proof -
  have f: "getUserDb fresh_storage = Inr []"
    by (simp add: getUserDb_def fresh_storage_def)
  have r: "getUserDb alice_registered = Inr [alice]"
    by (simp add: getUserDb_def alice_registered_def)
  have e: "email alice = ''alice@x.com''" by (simp add: alice_def)
  note F = mock_authentication [OF f, of "''Alice''" "''alice@x.com''" "''pw1''" App_start]
  note R = mock_authentication [OF r, of "''Alia''" "''alice@x.com''" "''pw2''" App_start]
  note L = mock_authentication [OF r, of "''Alia''" "''alice@x.com''" "''pw1''" App_start]
  have 1: "Register ''Alia'' ''alice@x.com'' ''pw2'' (App_start, alice_registered) =
     Inr (Some ''An account with this email already exists.'', App_start, alice_registered)"
    using R e by simp
  have 2: "Login ''alice@x.com'' ''pw1'' (App_start, fresh_storage) =
     Inr (Some ''No account found with that email. Please register.'', App_start, fresh_storage)"
    using F by simp
  have 3: "\<exists>app' ls'. Login ''alice@x.com'' ''pw1'' (App_start, alice_registered) = Inr (None, app', ls') \<and>
      user app' = User_json alice"
    using L e by auto
  from f r Register_alice 1 2 3 show ?thesis by blast
qed

text \<open>
  C7. Two passwords that are not empty give the same result, for Login and for Register
  alike, the storage written included. A successful Register of a name and an email
  appends that name and email, and nothing of the password, to the user list. After it,
  Login with that email and any password that is not empty, run with any session user
  and any persisted user record, makes that name and email the session user and persists
  it; so it does from the logged-out state that \<^verbatim>\<open>handleLogout\<close> leaves.
\<close>

theorem password_is_not_checked:
  "(p1 \<noteq> [] \<and> p2 \<noteq> [] \<longrightarrow>
      Login e p1 st = Login e p2 st \<and> Register n e p1 st = Register n e p2 st) \<and>
   (p \<noteq> [] \<and> Register n e p' st = Inr (None, app', ls') \<longrightarrow>
      (\<exists>db. getUserDb (snd st) = Inr db \<and>
            getUserDb ls' = Inr (db @ [\<lparr>name = n, email = e\<rparr>])) \<and>
      Login e p (app0, ls'\<lparr>user_item := item\<rparr>) =
        Inr (None, app0\<lparr>user := User_json \<lparr>name = n, email = e\<rparr>\<rparr>,
             ls'\<lparr>user_item := Some (Encodes (User_json \<lparr>name = n, email = e\<rparr>))\<rparr>)) \<and>
   (p \<noteq> [] \<and> Register n e p' st = Inr (None, app', ls') \<and>
    handleLogout (app', ls', w) = (app2, ls2, w2) \<longrightarrow>
      logged_out app2 \<and>
      Login e p (app2, ls2) =
        Inr (None, app2\<lparr>user := User_json \<lparr>name = n, email = e\<rparr>\<rparr>, ls'))"
proof (intro conjI impI)
  assume "p1 \<noteq> [] \<and> p2 \<noteq> []"
  then show "Login e p1 st = Login e p2 st" "Register n e p1 st = Register n e p2 st"
    by (simp_all add: Login_def Register_def handleSubmit_def)
next
  assume a: "p \<noteq> [] \<and> Register n e p' st = Inr (None, app', ls')"
  then have r: "Register n e p' st = Inr (None, app', ls')" and p: "p \<noteq> []" by simp_all
  from Register_stores [OF r]
  show "\<exists>db. getUserDb (snd st) = Inr db \<and> getUserDb ls' = Inr (db @ [\<lparr>name = n, email = e\<rparr>])"
    by blast
  from r p show "Login e p (app0, ls'\<lparr>user_item := item\<rparr>) =
        Inr (None, app0\<lparr>user := User_json \<lparr>name = n, email = e\<rparr>\<rparr>,
             ls'\<lparr>user_item := Some (Encodes (User_json \<lparr>name = n, email = e\<rparr>))\<rparr>)"
    by (rule Login_after_Register)
next
  assume a: "p \<noteq> [] \<and> Register n e p' st = Inr (None, app', ls') \<and>
    handleLogout (app', ls', w) = (app2, ls2, w2)"
  then have r: "Register n e p' st = Inr (None, app', ls')" and p: "p \<noteq> []"
    and o: "handleLogout (app', ls', w) = (app2, ls2, w2)" by simp_all
  from o have app2: "app2 = app'\<lparr>user := JNull, currentPage := Analyzer\<rparr>"
    and ls2: "ls2 = ls'\<lparr>user_item := None\<rparr>"
    by (simp_all add: handleLogout_def)
  from app2 show "logged_out app2" by (simp add: logged_out_def)
  from Register_stores [OF r]
  have u: "user_item ls' = Some (Encodes (User_json \<lparr>name = n, email = e\<rparr>))" by blast
  then have "ls'\<lparr>user_item := Some (Encodes (User_json \<lparr>name = n, email = e\<rparr>))\<rparr> = ls'"
    by simp
  with Login_after_Register [OF r p, of app2 None]
  show "Login e p (app2, ls2) =
        Inr (None, app2\<lparr>user := User_json \<lparr>name = n, email = e\<rparr>\<rparr>, ls')"
    unfolding ls2 by simp
qed

theorem password_is_not_checked_witness:
  "Register ''Alice'' ''alice@x.com'' ''pw1'' (App_start, fresh_storage) = Inr (None, alice_session) \<and>
   handleLogout (fst alice_session, snd alice_session, initial) = (App_start, alice_registered, initial) \<and>
   logged_out App_start \<and>
   Login ''alice@x.com'' ''anything'' (App_start, alice_registered) = Inr (None, alice_session) \<and>
   user (fst alice_session) = User_json \<lparr>name = ''Alice'', email = ''alice@x.com''\<rparr> \<and>
   Login ''alice@x.com'' ''pw1'' (App_start, alice_registered) =
     Login ''alice@x.com'' ''anything'' (App_start, alice_registered) \<and>
   getUserDb (snd alice_session) = Inr [\<lparr>name = ''Alice'', email = ''alice@x.com''\<rparr>]"
proof -
  have r: "Register ''Alice'' ''alice@x.com'' ''pw1'' (App_start, fresh_storage) =
      Inr (None, fst alice_session, snd alice_session)"
    using Register_alice by simp
  have o: "handleLogout (fst alice_session, snd alice_session, initial) =
      (App_start, alice_registered, initial)"
    by (simp add: handleLogout_def alice_session_def App_start_def alice_registered_def
        clearHistory_def initial_def)
  note A = password_is_not_checked [where ?p1.0 = "''pw1''" and ?p2.0 = "''anything''"
      and e = "''alice@x.com''" and st = "(App_start, alice_registered)"]
  note B = password_is_not_checked [where p = "''anything''" and n = "''Alice''"
      and e = "''alice@x.com''" and p' = "''pw1''" and st = "(App_start, fresh_storage)"
      and app' = "fst alice_session" and ls' = "snd alice_session" and w = initial
      and ?app2.0 = App_start and ?ls2.0 = alice_registered and ?w2.0 = initial]
  have 1: "Login ''alice@x.com'' ''pw1'' (App_start, alice_registered) =
     Login ''alice@x.com'' ''anything'' (App_start, alice_registered)"
    using A by simp
  have u: "user (fst alice_session) = User_json \<lparr>name = ''Alice'', email = ''alice@x.com''\<rparr>"
    by (simp add: alice_session_def alice_def)
  have f: "getUserDb fresh_storage = Inr []" by (simp add: getUserDb_def fresh_storage_def)
  from B r o have 2: "logged_out App_start"
    and 3: "Login ''alice@x.com'' ''anything'' (App_start, alice_registered) =
      Inr (None, App_start\<lparr>user := User_json \<lparr>name = ''Alice'', email = ''alice@x.com''\<rparr>\<rparr>,
           snd alice_session)"
    and 4: "\<exists>db. getUserDb (snd (App_start, fresh_storage)) = Inr db \<and>
        getUserDb (snd alice_session) = Inr (db @ [\<lparr>name = ''Alice'', email = ''alice@x.com''\<rparr>])"
    by simp_all
  from 4 f have 5: "getUserDb (snd alice_session) = Inr [\<lparr>name = ''Alice'', email = ''alice@x.com''\<rparr>]"
    by simp
  have 6: "(App_start\<lparr>user := User_json \<lparr>name = ''Alice'', email = ''alice@x.com''\<rparr>\<rparr>,
      snd alice_session) = alice_session"
    by (simp add: alice_session_def App_start_def alice_def)
  from Register_alice o 2 3 u 1 5 show ?thesis unfolding 6 by simp
qed

text \<open>
  C8 (as the code has it). At the start of the application, a persisted user record that
  is not the empty string is parsed. If that succeeds, the parsed value becomes the
  session user and the storage is left as it is. If it fails, the record is removed from
  storage and the user is logged out. A record that is the empty string is not parsed:
  it stays in storage and the user is logged out. The effect is total: no error leaves
  it.
\<close>

theorem restoreSession_at_start:
  "(user_item ls = Some storedUser \<and> truthy_text storedUser \<and> JSON_parse storedUser = Inr v \<longrightarrow>
      restoreSession (App_start, ls) = (App_start\<lparr>user := v\<rparr>, ls)) \<and>
   (user_item ls = Some storedUser \<and> truthy_text storedUser \<and> JSON_parse storedUser = Inl err \<longrightarrow>
      restoreSession (App_start, ls) = (App_start, ls\<lparr>user_item := None\<rparr>) \<and>
      logged_out (fst (restoreSession (App_start, ls)))) \<and>
   (user_item ls = Some EmptyText \<longrightarrow>
      restoreSession (App_start, ls) = (App_start, ls) \<and>
      logged_out (fst (restoreSession (App_start, ls))))"
  by (simp add: restoreSession_def logged_out_def App_start_def)

theorem restoreSession_at_start_witness:
  "restoreSession (App_start, alice_stored) = (App_start\<lparr>user := User_json alice\<rparr>, alice_stored) \<and>
   restoreSession (App_start, garbled_user) = (App_start, fresh_storage) \<and>
   logged_out (fst (restoreSession (App_start, garbled_user))) \<and>
   restoreSession (App_start, empty_user) = (App_start, empty_user)"
proof -
  have 1: "restoreSession (App_start, alice_stored) = (App_start\<lparr>user := User_json alice\<rparr>, alice_stored)"
    using restoreSession_at_start [of alice_stored "Encodes (User_json alice)" "User_json alice"]
    by (simp add: alice_stored_def)
  have 2: "restoreSession (App_start, garbled_user) = (App_start, fresh_storage) \<and>
      logged_out (fst (restoreSession (App_start, garbled_user)))"
    using restoreSession_at_start [of garbled_user Garbled _ SyntaxError]
    by (simp add: garbled_user_def fresh_storage_def logged_out_def App_start_def)
  have 3: "restoreSession (App_start, empty_user) = (App_start, empty_user)"
    using restoreSession_at_start [of empty_user]
    by (simp add: empty_user_def)
  from 1 2 3 show ?thesis by blast
qed

text \<open>
  C8 as stated fails for the record \<^verbatim>\<open>""\<close>: it exists and \<^verbatim>\<open>JSON.parse\<close> fails on it, yet
  the guard \<^verbatim>\<open>if (storedUser)\<close> skips it and it is not removed.
\<close>

theorem empty_record_counterexample:
  "user_item empty_user = Some EmptyText \<and>
   JSON_parse (EmptyText :: json jtext) = Inl SyntaxError \<and>
   user_item (snd (restoreSession (App_start, empty_user))) = Some EmptyText"
  by (simp add: empty_user_def restoreSession_def)

section \<open>Properties of the plan form\<close>

lemma dropWhile_all: "(\<forall>c\<in>set s. P c) \<Longrightarrow> dropWhile P s = []"
  by simp

lemma trim_empty_iff: "trim s = [] \<longleftrightarrow> (\<forall>c\<in>set s. isWhiteSpace c)"
proof
  assume "trim s = []"
  then have "\<forall>c\<in>set (dropWhile isWhiteSpace s). isWhiteSpace c"
    by (simp add: trim_def)
  then have "dropWhile isWhiteSpace s = []"
    by (metis dropWhile_eq_Nil_conv hd_dropWhile hd_in_set)
  then show "\<forall>c\<in>set s. isWhiteSpace c" by simp
next
  assume "\<forall>c\<in>set s. isWhiteSpace c"
  then have d: "dropWhile isWhiteSpace s = []" by (rule dropWhile_all)
  show "trim s = []" unfolding trim_def d by simp
qed

lemma signed_Nil: "signed [] = (False, [])"
  by (simp add: signed_def startsWith_def)

lemma parseInt_blank:
  assumes "\<forall>c\<in>set s. isWhiteSpace c"
  shows "parseInt s = None"
  unfolding parseInt_def dropWhile_all [OF assms] signed_Nil by simp

lemma parseFloat_blank:
  assumes "\<forall>c\<in>set s. isWhiteSpace c"
  shows "parseFloat s = None"
  unfolding parseFloat_def dropWhile_all [OF assms] signed_Nil by (simp add: startsWith_def)

lemma parseInt_Some_nonempty: "parseInt s = Some n \<Longrightarrow> s \<noteq> []"
  using parseInt_blank [of s] by auto

lemma parseFloat_Some_not_blank: "parseFloat s = Some x \<Longrightarrow> trim s \<noteq> []"
  using parseFloat_blank [of s] by (auto simp add: trim_empty_iff)

lemma gender_string_empty: "gender_string g = [] \<longleftrightarrow> g = NoGender"
  by (cases g) simp_all

lemma activity_string_empty: "activity_string a = [] \<longleftrightarrow> a = NoActivity"
  by (cases a) simp_all

lemma age_errors:
  "(let ageNum = parseInt a in
      if a = [] then [(''age'', ''Age is required.'')]
      else if (case ageNum of None \<Rightarrow> True | Some n \<Rightarrow> n < 1 \<or> n > 120)
        then [(''age'', ''Please enter a realistic age (1-120).'')]
        else []) = [] \<longleftrightarrow> (\<exists>n. parseInt a = Some n \<and> 1 \<le> n \<and> n \<le> 120)"
  using parseInt_Some_nonempty [of a]
  by (auto simp add: Let_def split: option.splits)

lemma size_errors:
  "(let num = parseFloat s in
      if trim s = [] then [(k, required)]
      else if (case num of None \<Rightarrow> True | Some x \<Rightarrow> le_zero x)
        then [(k, invalid)]
        else []) = [] \<longleftrightarrow> (\<exists>x. parseFloat s = Some x \<and> \<not> le_zero x)"
  using parseFloat_Some_not_blank [of s]
  by (auto simp add: Let_def split: option.splits)

lemma validateForm_iff:
  "validateForm m g \<longleftrightarrow>
     (\<exists>n. parseInt (age m) = Some n \<and> 1 \<le> n \<and> n \<le> 120) \<and>
     (\<exists>x. parseFloat (height m) = Some x \<and> \<not> le_zero x) \<and>
     (\<exists>x. parseFloat (weight m) = Some x \<and> \<not> le_zero x) \<and>
     gender m \<noteq> NoGender \<and> activityLevel m \<noteq> NoActivity \<and> trim g \<noteq> []"
  unfolding validateForm_def newErrors_def length_0_conv map_is_Nil_conv append_is_Nil_conv
    age_errors size_errors
  by (simp add: gender_string_empty activity_string_empty)

lemma handleGeneratePlan_sent:
  "sent (snd (handleGeneratePlan e m g w)) =
     (if validateForm m g then sent w @ [plan_request m g] else sent w)"
proof (cases "validateForm m g")
  case True
  have s: "sent (snd (generatePersonalizedPlan e m g w)) = sent w @ [plan_request m g]"
    by (simp add: generatePersonalizedPlan_def generateContent_def Date_now_def Let_def
        split: outcome.split option.split sum.split prod.split)
  obtain r w' where r: "generatePersonalizedPlan e m g w = (r, w')"
    by (cases "generatePersonalizedPlan e m g w")
  with s have "sent w' = sent w @ [plan_request m g]" by simp
  with True r show ?thesis
    by (cases r) (simp_all add: handleGeneratePlan_def)
next
  case False
  then show ?thesis by (simp add: handleGeneratePlan_def)
qed

lemma parse_examples:
  "parseInt ''30'' = Some 30" "parseInt ''12.5'' = Some 12"
  "parseFloat ''180cm'' = Some (Finite 180)" "parseFloat ''75kg'' = Some (Finite 75)"
  by (simp_all add: parseInt_def parseFloat_def signed_def startsWith_def isWhiteSpace_def
      isDigit_def decimalValue_def digitValue_def exponentPart_def scale10_def)

lemma trim_example: "trim ''lose 5kg'' \<noteq> []"
  by (simp add: trim_empty_iff isWhiteSpace_def)

lemma validateForm_fractional_age: "validateForm fractional_age ''lose 5kg''"
  unfolding validateForm_iff
  by (simp add: fractional_age_def parse_examples le_zero_def trim_example)

text \<open>
  C9 (as the code has it). \<^verbatim>\<open>validateForm\<close> returns true exactly when \<^verbatim>\<open>parseInt\<close> reads
  from the age an integer from 1 to 120, \<^verbatim>\<open>parseFloat\<close> reads from the height and from the
  weight a number greater than zero, a gender and an activity level are selected, and the
  goal is not blank. \<^verbatim>\<open>handleGeneratePlan\<close> sends a plan request, and only one, exactly
  when \<^verbatim>\<open>validateForm\<close> returns true.
\<close>

theorem plan_request_only_when_valid:
  "(validateForm metrics' goal' \<longleftrightarrow>
      (\<exists>n. parseInt (age metrics') = Some n \<and> 1 \<le> n \<and> n \<le> 120) \<and>
      (\<exists>x. parseFloat (height metrics') = Some x \<and> \<not> le_zero x) \<and>
      (\<exists>x. parseFloat (weight metrics') = Some x \<and> \<not> le_zero x) \<and>
      gender metrics' \<noteq> NoGender \<and> activityLevel metrics' \<noteq> NoActivity \<and>
      trim goal' \<noteq> []) \<and>
   sent (snd (handleGeneratePlan e metrics' goal' w)) =
     (if validateForm metrics' goal' then sent w @ [plan_request metrics' goal'] else sent w)"
  using validateForm_iff [of metrics' goal'] handleGeneratePlan_sent [of e metrics' goal' w]
  by blast

theorem plan_request_only_when_valid_witness:
  "validateForm example_metrics ''lose 5kg'' \<and>
   sent (snd (handleGeneratePlan (replying example_plan) example_metrics ''lose 5kg'' initial)) =
     [plan_request example_metrics ''lose 5kg''] \<and>
   \<not> validateForm example_metrics ''   '' \<and>
   sent (snd (handleGeneratePlan (replying example_plan) example_metrics ''   '' initial)) = []"
proof -
  note A = plan_request_only_when_valid [of example_metrics "''lose 5kg''" "replying example_plan" initial]
  note B = plan_request_only_when_valid [of example_metrics "''   ''" "replying example_plan" initial]
  have v: "validateForm example_metrics ''lose 5kg''"
    using A by (simp add: example_metrics_def parse_examples le_zero_def trim_example)
  have n: "\<not> validateForm example_metrics ''   ''"
    using B by (simp add: trim_empty_iff isWhiteSpace_def)
  have s: "sent initial = []" by (simp add: initial_def)
  from A B v n s show ?thesis by simp
qed

text \<open>
  C9 as stated fails: the age \<^verbatim>\<open>12.5\<close> is not an integer, yet \<^verbatim>\<open>parseInt\<close> reads 12 from
  it, validation passes and the request is sent. And a goal of one space is not empty,
  yet validation fails on it.
\<close>

theorem fractional_age_counterexample:
  "validateForm fractional_age ''lose 5kg'' \<and>
   \<not> validation_contract fractional_age ''lose 5kg'' \<and>
   sent (snd (handleGeneratePlan (replying example_plan) fractional_age ''lose 5kg'' initial)) =
     [plan_request fractional_age ''lose 5kg''] \<and>
   validation_contract example_metrics '' '' \<and>
   \<not> validateForm example_metrics '' ''"
proof -
  have 1: "\<not> validation_contract fractional_age ''lose 5kg''"
    by (simp add: validation_contract_def integer_in_range_def fractional_age_def isDigit_def)
  have 2: "sent (snd (handleGeneratePlan (replying example_plan) fractional_age ''lose 5kg'' initial)) =
     [plan_request fractional_age ''lose 5kg'']"
    using validateForm_fractional_age by (simp add: handleGeneratePlan_sent initial_def)
  have 3: "validation_contract example_metrics '' ''"
    by (simp add: validation_contract_def integer_in_range_def positive_number_def
        example_metrics_def parse_examples le_zero_def isDigit_def decimalValue_def digitValue_def)
  have 4: "\<not> validateForm example_metrics '' ''"
    by (simp add: validateForm_iff trim_empty_iff isWhiteSpace_def)
  from validateForm_fractional_age 1 2 3 4 show ?thesis by blast
qed

section \<open>Properties of the object store\<close>

lemma those_map_Some:
  "those (map f xs) = Some ys \<longleftrightarrow> list_all2 (\<lambda>x y. f x = Some y) xs ys"
proof (induction xs arbitrary: ys)
  case Nil
  show ?case by auto
next
  case (Cons x xs)
  show ?case
  proof (cases "f x")
    case None
    then show ?thesis by (auto simp add: list_all2_Cons1)
  next
    case (Some y)
    with Cons show ?thesis by (auto simp add: list_all2_Cons1)
  qed
qed

lemma agrees_nth: "agrees h h2 \<Longrightarrow> a < length h \<Longrightarrow> a < length h2 \<and> h2 ! a = h ! a"
  unfolding agrees_def by (metis nth_take order_less_le_trans)

lemma agrees_append: "agrees h (h @ ext)"
  by (simp add: agrees_def)

lemma agrees_refl: "agrees h h"
  by (simp add: agrees_def)

lemma reify_mono:
  assumes "agrees h h2"
  shows "reify n h v = Some j \<Longrightarrow> n \<le> m \<Longrightarrow> reify m h2 v = Some j"
proof (induction n arbitrary: m v j)
  case 0
  then show ?case by (cases v) simp_all
next
  case (Suc n)
  show ?case
  proof (cases v)
    case (VRef a)
    from Suc.prems(2) obtain m' where m: "m = Suc m'" and le: "n \<le> m'"
      by (cases m) simp_all
    from Suc.prems(1) VRef have a: "a < length h"
      by (simp split: if_splits)
    from agrees_nth [OF assms a] have a2: "a < length h2" and same: "h2 ! a = h ! a"
      by simp_all
    have step: "list_all2 (\<lambda>x y. reify m' h2 x = Some y) vs js"
      if "list_all2 (\<lambda>x y. reify n h x = Some y) vs js" for vs js
      using that by (rule list_all2_mono) (rule Suc.IH [OF _ le])
    show ?thesis
    proof (cases "h ! a")
      case (ArrayCell vs)
      with Suc.prems(1) VRef a obtain js where j: "j = JArr js"
        and js: "those (map (reify n h) vs) = Some js"
        by auto
      from js have "those (map (reify m' h2) vs) = Some js"
        unfolding those_map_Some by (rule step)
      with VRef m a2 same ArrayCell j show ?thesis by simp
    next
      case (ObjectCell kvs)
      with Suc.prems(1) VRef a obtain js where j: "j = JObj (zip (map fst kvs) js)"
        and js: "those (map (reify n h) (map snd kvs)) = Some js"
        by auto
      from js have "those (map (reify m' h2) (map snd kvs)) = Some js"
        unfolding those_map_Some by (rule step)
      with VRef m a2 same ObjectCell j show ?thesis by simp
    qed
  qed (use Suc.prems in simp_all)
qed

lemma build_extends:
  "build j h = (v, h') \<Longrightarrow> \<exists>ext. h' = h @ ext"
  "build_list xs h = (vs, h') \<Longrightarrow> \<exists>ext. h' = h @ ext"
  "build_fields kvs h = (fs, h') \<Longrightarrow> \<exists>ext. h' = h @ ext"
  by (induction j h and xs h and kvs h arbitrary: v h' and vs h' and fs h'
      rule: build_build_list_build_fields.induct)
    (auto split: prod.splits)

lemma agrees_trans:
  assumes "agrees h1 h2" and "agrees h2 h3"
  shows "agrees h1 h3"
proof -
  from assms have l: "length h1 \<le> length h2" "length h2 \<le> length h3"
    and t: "take (length h1) h2 = h1" "take (length h2) h3 = h2"
    by (simp_all add: agrees_def)
  have "take (length h1) (take (length h2) h3) = take (length h1) h3"
    using l(1) by (simp add: min_def)
  with t have "take (length h1) h3 = h1" by simp
  with l show ?thesis by (simp add: agrees_def)
qed

lemma rebuilt_mono:
  assumes "rebuilt h1 v j" and "agrees h1 h2"
  shows "rebuilt h2 v j"
  unfolding rebuilt_def
proof (intro conjI allI impI)
  from assms show "rank v \<le> length h2" by (simp add: rebuilt_def agrees_def)
next
  fix n h3 assume "rank v \<le> n" and "agrees h2 h3"
  with assms(2) have "agrees h1 h3" by (simp add: agrees_trans)
  with assms(1) \<open>rank v \<le> n\<close> show "reify n h3 v = Some j" by (simp add: rebuilt_def)
qed

lemma rebuilt_list_mono:
  "list_all2 (rebuilt h1) vs xs \<Longrightarrow> agrees h1 h2 \<Longrightarrow> list_all2 (rebuilt h2) vs xs"
  by (erule list_all2_mono) (rule rebuilt_mono)

lemma rebuilt_primitive:
  "rebuilt h VNull JNull" "rebuilt h (VBool b) (JBool b)" "rebuilt h (VNum x) (JNum x)"
  "rebuilt h (VStr s) (JStr s)"
  by (simp_all add: rebuilt_def)

lemma rebuilt_children:
  assumes all: "list_all2 (rebuilt h1) vs xs" and n: "length h1 \<le> n" and ag: "agrees h1 h2"
  shows "those (map (reify n h2) vs) = Some xs"
  unfolding those_map_Some
  using all
proof (rule list_all2_mono)
  fix v x assume "rebuilt h1 v x"
  with n ag show "reify n h2 v = Some x" by (simp add: rebuilt_def)
qed

lemma rebuilt_array:
  assumes "list_all2 (rebuilt h1) vs xs"
  shows "rebuilt (h1 @ [ArrayCell vs]) (VRef (length h1)) (JArr xs)"
  unfolding rebuilt_def
proof (intro conjI allI impI)
  show "rank (VRef (length h1)) \<le> length (h1 @ [ArrayCell vs])" by simp
next
  fix n h2
  assume r: "rank (VRef (length h1)) \<le> n" and ag: "agrees (h1 @ [ArrayCell vs]) h2"
  from r obtain n' where n: "n = Suc n'" and le: "length h1 \<le> n'" by (cases n) simp_all
  from agrees_nth [OF ag, of "length h1"]
  have a: "length h1 < length h2" and c: "h2 ! length h1 = ArrayCell vs" by simp_all
  have "agrees h1 h2" using agrees_append ag by (rule agrees_trans)
  from rebuilt_children [OF assms le this] n a c
  show "reify n h2 (VRef (length h1)) = Some (JArr xs)" by simp
qed

lemma rebuilt_object:
  assumes "list_all2 (rebuilt h1) (map snd fs) (map snd kvs)" and "map fst fs = map fst kvs"
  shows "rebuilt (h1 @ [ObjectCell fs]) (VRef (length h1)) (JObj kvs)"
  unfolding rebuilt_def
proof (intro conjI allI impI)
  show "rank (VRef (length h1)) \<le> length (h1 @ [ObjectCell fs])" by simp
next
  fix n h2
  assume r: "rank (VRef (length h1)) \<le> n" and ag: "agrees (h1 @ [ObjectCell fs]) h2"
  from r obtain n' where n: "n = Suc n'" and le: "length h1 \<le> n'" by (cases n) simp_all
  from agrees_nth [OF ag, of "length h1"]
  have a: "length h1 < length h2" and c: "h2 ! length h1 = ObjectCell fs" by simp_all
  have "agrees h1 h2" using agrees_append ag by (rule agrees_trans)
  from rebuilt_children [OF assms(1) le this] n a c assms(2)
  show "reify n h2 (VRef (length h1)) = Some (JObj kvs)" by (simp add: zip_map_fst_snd)
qed

lemma build_rebuilt:
  "build j h = (v, h') \<Longrightarrow> rebuilt h' v j"
  "build_list xs h = (vs, h') \<Longrightarrow> list_all2 (rebuilt h') vs xs"
  "build_fields kvs h = (fs, h') \<Longrightarrow>
     map fst fs = map fst kvs \<and> list_all2 (rebuilt h') (map snd fs) (map snd kvs)"
proof (induction j h and xs h and kvs h arbitrary: v h' and vs h' and fs h'
    rule: build_build_list_build_fields.induct)
  case (5 xs h)
  from "5.prems" obtain vs h1 where l: "build_list xs h = (vs, h1)"
    and v: "v = VRef (length h1)" and h': "h' = h1 @ [ArrayCell vs]"
    by (auto split: prod.splits)
  from "5.IH" [OF l] show ?case unfolding v h' by (rule rebuilt_array)
next
  case (6 kvs h)
  from "6.prems" obtain fs h1 where l: "build_fields kvs h = (fs, h1)"
    and v: "v = VRef (length h1)" and h': "h' = h1 @ [ObjectCell fs]"
    by (auto split: prod.splits)
  from "6.IH" [OF l] show ?case unfolding v h' by (simp add: rebuilt_object)
next
  case (8 x xs h)
  from "8.prems" obtain v1 h1 vs1 where b: "build x h = (v1, h1)"
    and l: "build_list xs h1 = (vs1, h')" and vs: "vs = v1 # vs1"
    by (auto split: prod.splits)
  from build_extends(2) [OF l] have "agrees h1 h'" by (auto simp add: agrees_append)
  with "8.IH"(1) [OF b] have "rebuilt h' v1 x" by (rule rebuilt_mono)
  with "8.IH"(2) [OF b [symmetric] l] vs show ?case by simp
next
  case (10 kv kvs h)
  from "10.prems" obtain v1 h1 fs1 where b: "build (snd kv) h = (v1, h1)"
    and l: "build_fields kvs h1 = (fs1, h')" and fs: "fs = (fst kv, v1) # fs1"
    by (auto split: prod.splits)
  from build_extends(3) [OF l] have "agrees h1 h'" by (auto simp add: agrees_append)
  with "10.IH"(1) [OF b] have "rebuilt h' v1 (snd kv)" by (rule rebuilt_mono)
  with "10.IH"(2) [OF b [symmetric] l] fs show ?case by simp
qed (simp_all add: rebuilt_primitive)

lemma inside_mono: "inside lo hi v \<Longrightarrow> lo' \<le> lo \<Longrightarrow> hi \<le> hi' \<Longrightarrow> inside lo' hi' v"
  by (auto simp add: inside_def)

lemma inside_primitive:
  "inside lo hi VNull" "inside lo hi (VBool b)" "inside lo hi (VNum x)" "inside lo hi (VStr s)"
  by (simp_all add: inside_def)

lemma new_cells_none: "new_cells h (length h)"
  by (auto simp add: new_cells_def)

lemma new_cells_alloc:
  assumes n: "new_cells h1 lo" and lo: "lo \<le> length h1"
    and c: "\<forall>u\<in>set (members c). inside lo (length h1) u"
  shows "new_cells (h1 @ [c]) lo"
  unfolding new_cells_def
proof (intro allI impI ballI)
  fix i u
  assume i: "lo \<le> i \<and> i < length (h1 @ [c])" and u: "u \<in> set (members ((h1 @ [c]) ! i))"
  show "inside lo (length (h1 @ [c])) u"
  proof (cases "i < length h1")
    case True
    with i u n have "inside lo (length h1) u" by (auto simp add: new_cells_def nth_append)
    then show ?thesis by (rule inside_mono) simp_all
  next
    case False
    with i have "i = length h1" by simp
    with u c have "inside lo (length h1) u" by simp
    then show ?thesis by (rule inside_mono) simp_all
  qed
qed

lemma new_cells_join:
  assumes a: "new_cells h1 lo" and b: "new_cells h2 (length h1)"
    and ag: "agrees h1 h2" and lo: "lo \<le> length h1"
  shows "new_cells h2 lo"
  unfolding new_cells_def
proof (intro allI impI ballI)
  fix i u
  assume i: "lo \<le> i \<and> i < length h2" and u: "u \<in> set (members (h2 ! i))"
  from ag have le: "length h1 \<le> length h2" by (simp add: agrees_def)
  show "inside lo (length h2) u"
  proof (cases "i < length h1")
    case True
    from agrees_nth [OF ag True] u have "u \<in> set (members (h1 ! i))" by simp
    with a i True have "inside lo (length h1) u" by (auto simp add: new_cells_def)
    then show ?thesis using le by (rule inside_mono [OF _ order_refl])
  next
    case False
    then have "length h1 \<le> i" by simp
    with b i u have "inside (length h1) (length h2) u" by (auto simp add: new_cells_def)
    then show ?thesis using lo by (rule inside_mono) simp
  qed
qed

lemma build_length:
  "build j h = (v, h') \<Longrightarrow> length h \<le> length h'"
  "build_list xs h = (vs, h') \<Longrightarrow> length h \<le> length h'"
  "build_fields kvs h = (fs, h') \<Longrightarrow> length h \<le> length h'"
  using build_extends(1) [of j h v h'] build_extends(2) [of xs h vs h']
    build_extends(3) [of kvs h fs h']
  by auto

lemma build_agrees:
  "build j h = (v, h') \<Longrightarrow> agrees h h'"
  "build_list xs h = (vs, h') \<Longrightarrow> agrees h h'"
  "build_fields kvs h = (fs, h') \<Longrightarrow> agrees h h'"
  using build_extends(1) [of j h v h'] build_extends(2) [of xs h vs h']
    build_extends(3) [of kvs h fs h']
  by (auto simp add: agrees_append)

lemma build_fresh:
  "build j h = (v, h') \<Longrightarrow> inside (length h) (length h') v \<and> new_cells h' (length h)"
  "build_list xs h = (vs, h') \<Longrightarrow>
     (\<forall>u\<in>set vs. inside (length h) (length h') u) \<and> new_cells h' (length h)"
  "build_fields kvs h = (fs, h') \<Longrightarrow>
     (\<forall>u\<in>set (map snd fs). inside (length h) (length h') u) \<and> new_cells h' (length h)"
proof (induction j h and xs h and kvs h arbitrary: v h' and vs h' and fs h'
    rule: build_build_list_build_fields.induct)
  case (5 xs h)
  from "5.prems" obtain vs h1 where l: "build_list xs h = (vs, h1)"
    and v: "v = VRef (length h1)" and h': "h' = h1 @ [ArrayCell vs]"
    by (auto split: prod.splits)
  from "5.IH" [OF l] have m: "\<forall>u\<in>set (members (ArrayCell vs)). inside (length h) (length h1) u"
    and n: "new_cells h1 (length h)" by simp_all
  from build_length(2) [OF l] have le: "length h \<le> length h1" .
  from new_cells_alloc [OF n le m] le show ?case unfolding v h' by (simp add: inside_def)
next
  case (6 kvs h)
  from "6.prems" obtain fs h1 where l: "build_fields kvs h = (fs, h1)"
    and v: "v = VRef (length h1)" and h': "h' = h1 @ [ObjectCell fs]"
    by (auto split: prod.splits)
  from "6.IH" [OF l] have m: "\<forall>u\<in>set (members (ObjectCell fs)). inside (length h) (length h1) u"
    and n: "new_cells h1 (length h)" by simp_all
  from build_length(3) [OF l] have le: "length h \<le> length h1" .
  from new_cells_alloc [OF n le m] le show ?case unfolding v h' by (simp add: inside_def)
next
  case (8 x xs h)
  from "8.prems" obtain v1 h1 vs1 where b: "build x h = (v1, h1)"
    and l: "build_list xs h1 = (vs1, h')" and vs: "vs = v1 # vs1"
    by (auto split: prod.splits)
  from build_length(1) [OF b] build_length(2) [OF l]
  have le: "length h \<le> length h1" "length h1 \<le> length h'" .
  from "8.IH"(1) [OF b] have i1: "inside (length h) (length h1) v1" and n1: "new_cells h1 (length h)"
    by simp_all
  from "8.IH"(2) [OF b [symmetric] l]
  have i2: "\<forall>u\<in>set vs1. inside (length h1) (length h') u" and n2: "new_cells h' (length h1)"
    by simp_all
  have "new_cells h' (length h)"
    using n1 n2 build_agrees(2) [OF l] le(1) by (rule new_cells_join)
  moreover have "inside (length h) (length h') v1"
    using i1 le by (auto intro: inside_mono)
  moreover have "\<forall>u\<in>set vs1. inside (length h) (length h') u"
    using i2 le by (auto intro: inside_mono)
  ultimately show ?case unfolding vs by simp
next
  case (10 kv kvs h)
  from "10.prems" obtain v1 h1 fs1 where b: "build (snd kv) h = (v1, h1)"
    and l: "build_fields kvs h1 = (fs1, h')" and fs: "fs = (fst kv, v1) # fs1"
    by (auto split: prod.splits)
  from build_length(1) [OF b] build_length(3) [OF l]
  have le: "length h \<le> length h1" "length h1 \<le> length h'" .
  from "10.IH"(1) [OF b] have i1: "inside (length h) (length h1) v1" and n1: "new_cells h1 (length h)"
    by simp_all
  from "10.IH"(2) [OF b [symmetric] l]
  have i2: "\<forall>u\<in>set (map snd fs1). inside (length h1) (length h') u" and n2: "new_cells h' (length h1)"
    by simp_all
  have "new_cells h' (length h)"
    using n1 n2 build_agrees(3) [OF l] le(1) by (rule new_cells_join)
  moreover have "inside (length h) (length h') v1"
    using i1 le by (auto intro: inside_mono)
  moreover have "\<forall>u\<in>set (map snd fs1). inside (length h) (length h') u"
    using i2 le by (auto intro: inside_mono)
  ultimately show ?case unfolding fs by simp
qed (simp_all add: inside_primitive new_cells_none)

lemma reaches_inside:
  assumes n: "new_cells h lo"
  shows "reaches h v a \<Longrightarrow> inside lo (length h) v \<Longrightarrow> lo \<le> a \<and> a < length h"
proof (induction rule: reaches.induct)
  case (here a)
  then show ?case by (simp add: inside_def)
next
  case (step a u b)
  from step.prems have "lo \<le> a" by (simp add: inside_def)
  with n step.hyps(1,2) have "inside lo (length h) u" by (auto simp add: new_cells_def)
  then show ?case by (rule step.IH)
qed

lemma written_finite: "finite_json j \<Longrightarrow> written j = j"
proof (induction j)
  case (JNum x)
  then show ?case by (cases x) simp_all
next
  case (JArr xs)
  then show ?case by (simp add: list_all_iff map_idI)
next
  case (JObj kvs)
  have "map (\<lambda>(k, v). (k, written v)) kvs = map (\<lambda>kv. kv) kvs"
  proof (rule map_cong [OF refl])
    fix kv assume kv: "kv \<in> set kvs"
    obtain k v where p: "kv = (k, v)" by (cases kv)
    with kv JObj.prems have "finite_json v" by (auto simp add: list_all_iff)
    moreover from kv p have "v \<in> Basic_BNFs.snds kv" by simp
    ultimately have "written v = v" using JObj.IH kv by blast
    with p show "(case kv of (k, v) \<Rightarrow> (k, written v)) = kv" by simp
  qed
  then show ?case by simp
qed simp_all

lemma written_HistoryData_json:
  "written (HistoryData_json db) =
     HistoryData_json \<lparr>meals = map written_meal (meals db), plans = map written_plan (plans db)\<rparr>"
  by (simp add: HistoryData_json_def MealHistoryItem_json_def PlanHistoryItem_json_def
      UserMetrics_json_def written_meal_def written_plan_def)

lemma finite_history_copy:
  assumes "finite_history db"
  shows "\<lparr>meals = map written_meal (meals db), plans = map written_plan (plans db)\<rparr> = db"
proof -
  have "map written_meal (meals db) = meals db"
    using assms by (auto simp add: finite_history_def list_all_iff written_meal_def
        written_finite intro: map_idI)
  moreover have "map written_plan (plans db) = plans db"
    using assms by (auto simp add: finite_history_def list_all_iff written_plan_def
        written_finite intro: map_idI)
  ultimately show ?thesis by simp
qed

lemma agrees_update:
  assumes "agrees h h'" and "length h \<le> a"
  shows "agrees h (h'[a := c])"
  using assms by (simp add: agrees_def)

lemma holds_agrees:
  assumes "holds s db" and "agrees (cells s) (cells s2)" and "mockDb_at s2 = mockDb_at s"
  shows "holds s2 db"
proof -
  from assms(1)
  have r: "reify (Suc (length (cells s))) (cells s) (VRef (mockDb_at s)) = Some (HistoryData_json db)"
    by (simp only: holds_def readback_def)
  from assms(2) have le: "Suc (length (cells s)) \<le> Suc (length (cells s2))"
    by (simp add: agrees_def)
  from reify_mono [OF assms(2) r le] assms(3) show ?thesis
    by (simp only: holds_def readback_def)
qed

lemma getHistory_in_copy:
  assumes "readback s (VRef (mockDb_at s)) = Some j"
  shows "\<exists>v h'. getHistory_in s = Inr (v, s\<lparr>cells := h'\<rparr>) \<and>
           readback (s\<lparr>cells := h'\<rparr>) v = Some (written j) \<and>
           agrees (cells s) h' \<and>
           inside (length (cells s)) (length h') v \<and> new_cells h' (length (cells s))"
proof -
  obtain v h' where b: "build (written j) (cells s) = (v, h')"
    by (cases "build (written j) (cells s)")
  have g: "getHistory_in s = Inr (v, s\<lparr>cells := h'\<rparr>)"
    unfolding getHistory_in_def assms JSON_stringify_def by (simp add: b)
  from build_rebuilt(1) [OF b] have rk: "rank v \<le> length h'"
    and all: "\<forall>n h2. rank v \<le> n \<longrightarrow> agrees h' h2 \<longrightarrow> reify n h2 v = Some (written j)"
    unfolding rebuilt_def by blast+
  from rk have "rank v \<le> Suc (length h')" by simp
  with all agrees_refl have "reify (Suc (length h')) h' v = Some (written j)" by blast
  then have r: "readback (s\<lparr>cells := h'\<rparr>) v = Some (written j)"
    unfolding readback_def by simp
  from build_fresh(1) [OF b] have f: "inside (length (cells s)) (length h') v"
    "new_cells h' (length (cells s))" by blast+
  from g r build_agrees(1) [OF b] f show ?thesis by blast
qed

lemma holds_laid_out: "holds (laid_out db) db"
proof -
  obtain kvs where j: "HistoryData_json db = JObj kvs" by (simp add: HistoryData_json_def)
  obtain fs h1 where f: "build_fields kvs [] = (fs, h1)" by (cases "build_fields kvs []")
  then have b: "build (JObj kvs) [] = (VRef (length h1), h1 @ [ObjectCell fs])" by simp
  then have l: "laid_out db = \<lparr>cells = h1 @ [ObjectCell fs], mockDb_at = length h1\<rparr>"
    by (simp add: laid_out_def j)
  from build_rebuilt(1) [OF b]
  have "\<forall>n h2. rank (VRef (length h1)) \<le> n \<longrightarrow> agrees (h1 @ [ObjectCell fs]) h2 \<longrightarrow>
      reify n h2 (VRef (length h1)) = Some (JObj kvs)"
    unfolding rebuilt_def by blast
  moreover have "rank (VRef (length h1)) \<le> Suc (length (h1 @ [ObjectCell fs]))" by simp
  ultimately have "reify (Suc (length (h1 @ [ObjectCell fs]))) (h1 @ [ObjectCell fs])
      (VRef (length h1)) = Some (JObj kvs)"
    using agrees_refl by blast
  then show ?thesis unfolding holds_def readback_def l j by simp
qed

lemma String_1000: "String 1000 = ''1000''"
  by (simp add: String_def decimal.simps digit_def)

lemma mockDb_one_meal:
  "mockDb one_meal =
     \<lparr>meals = [\<lparr>id' = ''meal-1000'', timestamp = 1001,
                 nutritionalInfo = JObj [(''summary'', JStr ''ok'')],
                 imageDataUrl = ''data:image/png;base64,QUJD''\<rparr>],
      plans = []\<rparr>"
  by (simp add: one_meal_def analyzeMealImage_success replying_def initial_def String_1000)

lemma mockDb_overflowed:
  "mockDb overflowed =
     \<lparr>meals = [\<lparr>id' = ''meal-1000'', timestamp = 1001, nutritionalInfo = JNum PosInfinity,
                 imageDataUrl = ''data:image/png;base64,QUJD''\<rparr>],
      plans = []\<rparr>"
  by (simp add: overflowed_def analyzeMealImage_success replying_def initial_def String_1000)

lemma one_meal_json:
  "HistoryData_json (mockDb one_meal) = JObj
     [(''meals'', JArr [JObj
        [(''id'', JStr ''meal-1000''), (''timestamp'', JNum (Finite 1001)),
         (''nutritionalInfo'', JObj [(''summary'', JStr ''ok'')]),
         (''imageDataUrl'', JStr ''data:image/png;base64,QUJD'')]]),
      (''plans'', JArr [])]"
  by (simp add: mockDb_one_meal HistoryData_json_def MealHistoryItem_json_def)

lemma holds_one_meal: "holds one_meal_store (mockDb one_meal)"
  unfolding holds_def one_meal_json
  by (simp add: readback_def one_meal_store_def)

lemma getHistory_in_one_meal: "getHistory_in one_meal_store = Inr (VRef 9, one_meal_copied)"
  using holds_one_meal unfolding holds_def one_meal_json
  by (simp add: getHistory_in_def JSON_stringify_def one_meal_store_def one_meal_copied_def)

lemma reaches_one_meal: "reaches (cells one_meal_copied) (VRef 9) 5"
proof -
  let ?h = "cells one_meal_copied"
  have "reaches ?h (VRef 5) 5" by (rule reaches.here)
  then have "reaches ?h (VRef 6) 5"
    by (rule reaches.step [rotated 2]) (simp_all add: one_meal_copied_def)
  then have "reaches ?h (VRef 7) 5"
    by (rule reaches.step [rotated 2]) (simp_all add: one_meal_copied_def)
  then show "reaches ?h (VRef 9) 5"
    by (rule reaches.step [rotated 2]) (simp_all add: one_meal_copied_def)
qed

text \<open>
  What \<^verbatim>\<open>getHistory\<close> does give. Let the store hold the history. Then \<^verbatim>\<open>getHistory\<close>
  does not fail, and what it returns reads back as the history with every number that is
  not finite replaced by \<^verbatim>\<open>null\<close>: it is structurally equal to the history when all
  numbers in it are finite. The variable \<^verbatim>\<open>mockDb\<close> and what it holds are as before.
  Every cell the returned value reaches is a new one. So after any change to a cell that
  the returned value reaches, the store still holds the same history, and \<^verbatim>\<open>getHistory\<close>
  returns a value that reads back as before.
\<close>

theorem getHistory_copies:
  assumes "holds s (mockDb w)"
  shows "\<exists>v s' db'. getHistory_in s = Inr (v, s') \<and> getHistory w = (Inr db', w) \<and>
      readback s' v = Some (HistoryData_json db') \<and>
      (finite_history (mockDb w) \<longrightarrow> db' = mockDb w) \<and>
      mockDb_at s' = mockDb_at s \<and> holds s' (mockDb w) \<and>
      (\<forall>a. reaches (cells s') v a \<longrightarrow> length (cells s) \<le> a \<and> a < length (cells s')) \<and>
      (\<forall>a c. reaches (cells s') v a \<longrightarrow>
         holds (s'\<lparr>cells := (cells s')[a := c]\<rparr>) (mockDb w) \<and>
         (\<exists>v2 s2. getHistory_in (s'\<lparr>cells := (cells s')[a := c]\<rparr>) = Inr (v2, s2) \<and>
            readback s2 v2 = Some (HistoryData_json db')))"
proof -
  define db' where "db' = \<lparr>meals = map written_meal (meals (mockDb w)),
    plans = map written_plan (plans (mockDb w))\<rparr>"
  have w: "written (HistoryData_json (mockDb w)) = HistoryData_json db'"
    unfolding db'_def by (rule written_HistoryData_json)
  from assms have rd: "readback s (VRef (mockDb_at s)) = Some (HistoryData_json (mockDb w))"
    by (simp only: holds_def)
  from getHistory_in_copy [OF rd] obtain v h' where
    g: "getHistory_in s = Inr (v, s\<lparr>cells := h'\<rparr>)"
    and r: "readback (s\<lparr>cells := h'\<rparr>) v = Some (HistoryData_json db')"
    and ag: "agrees (cells s) h'"
    and ins: "inside (length (cells s)) (length h') v"
    and new: "new_cells h' (length (cells s))"
    unfolding w by blast
  define s' where "s' = s\<lparr>cells := h'\<rparr>"
  have c': "cells s' = h'" and m': "mockDb_at s' = mockDb_at s"
    by (simp_all add: s'_def)
  have 1: "getHistory w = (Inr db', w)"
    by (simp add: getHistory_def stringify_history_def db'_def)
  have 2: "finite_history (mockDb w) \<longrightarrow> db' = mockDb w"
    unfolding db'_def by (simp add: finite_history_copy)
  have 3: "holds s' (mockDb w)"
    using assms
  proof (rule holds_agrees)
    show "agrees (cells s) (cells s')" unfolding c' by (rule ag)
    show "mockDb_at s' = mockDb_at s" by (rule m')
  qed
  have 4: "length (cells s) \<le> a \<and> a < length (cells s')" if "reaches (cells s') v a" for a
    using reaches_inside [OF new, of v a] that ins unfolding c' by blast
  have 5: "holds (s'\<lparr>cells := (cells s')[a := c]\<rparr>) (mockDb w) \<and>
         (\<exists>v2 s2. getHistory_in (s'\<lparr>cells := (cells s')[a := c]\<rparr>) = Inr (v2, s2) \<and>
            readback s2 v2 = Some (HistoryData_json db'))"
    if "reaches (cells s') v a" for a c
  proof -
    let ?m = "s'\<lparr>cells := (cells s')[a := c]\<rparr>"
    from 4 [OF that] have "length (cells s) \<le> a" by blast
    with ag have u: "agrees (cells s) (h'[a := c])" by (rule agrees_update)
    have h: "holds ?m (mockDb w)"
      using assms
    proof (rule holds_agrees)
      show "agrees (cells s) (cells ?m)" using u by (simp add: c')
      show "mockDb_at ?m = mockDb_at s" by (simp add: m')
    qed
    then have "readback ?m (VRef (mockDb_at ?m)) = Some (HistoryData_json (mockDb w))"
      by (simp only: holds_def)
    from getHistory_in_copy [OF this] h show ?thesis unfolding w by blast
  qed
  from 4 have all4: "\<forall>a. reaches (cells s') v a \<longrightarrow> length (cells s) \<le> a \<and> a < length (cells s')"
    by blast
  from 5 have all5: "\<forall>a c. reaches (cells s') v a \<longrightarrow>
         holds (s'\<lparr>cells := (cells s')[a := c]\<rparr>) (mockDb w) \<and>
         (\<exists>v2 s2. getHistory_in (s'\<lparr>cells := (cells s')[a := c]\<rparr>) = Inr (v2, s2) \<and>
            readback s2 v2 = Some (HistoryData_json db'))"
    by blast
  from g have g': "getHistory_in s = Inr (v, s')" by (simp only: s'_def)
  from r have r': "readback s' v = Some (HistoryData_json db')" by (simp only: s'_def)
  show ?thesis
    using g' 1 r' 2 m' 3 all4 all5 by (intro exI [of _ v] exI [of _ s'] exI [of _ db'] conjI)
qed

theorem getHistory_copies_witness:
  "holds one_meal_store (mockDb one_meal) \<and>
   finite_history (mockDb one_meal) \<and>
   getHistory_in one_meal_store = Inr (VRef 9, one_meal_copied) \<and>
   getHistory one_meal = (Inr (mockDb one_meal), one_meal) \<and>
   readback one_meal_copied (VRef 9) = Some (HistoryData_json (mockDb one_meal)) \<and>
   reaches (cells one_meal_copied) (VRef 9) 5 \<and>
   holds (one_meal_copied\<lparr>cells :=
            (cells one_meal_copied)[5 := ObjectCell [(''summary'', VStr ''changed'')]]\<rparr>)
     (mockDb one_meal)"
proof -
  have f: "finite_history (mockDb one_meal)"
    by (simp add: finite_history_def mockDb_one_meal)
  from getHistory_copies [OF holds_one_meal] obtain v s' db' where
    g: "getHistory_in one_meal_store = Inr (v, s')"
    and v: "getHistory one_meal = (Inr db', one_meal)"
    and r: "readback s' v = Some (HistoryData_json db')"
    and e: "finite_history (mockDb one_meal) \<longrightarrow> db' = mockDb one_meal"
    and m: "\<forall>a c. reaches (cells s') v a \<longrightarrow>
         holds (s'\<lparr>cells := (cells s')[a := c]\<rparr>) (mockDb one_meal) \<and>
         (\<exists>v2 s2. getHistory_in (s'\<lparr>cells := (cells s')[a := c]\<rparr>) = Inr (v2, s2) \<and>
            readback s2 v2 = Some (HistoryData_json db'))"
    by blast
  from g getHistory_in_one_meal have vs: "v = VRef 9" "s' = one_meal_copied" by simp_all
  from e f have d: "db' = mockDb one_meal" by blast
  from m reaches_one_meal
  have "holds (one_meal_copied\<lparr>cells :=
            (cells one_meal_copied)[5 := ObjectCell [(''summary'', VStr ''changed'')]]\<rparr>)
     (mockDb one_meal)"
    unfolding vs by blast
  with holds_one_meal f getHistory_in_one_meal v r reaches_one_meal show ?thesis
    unfolding vs d by blast
qed

text \<open>
  C5. \<^verbatim>\<open>getHistory\<close> is to return a copy that is structurally equal to the store, as
  the comment in its body says. It does not where the store holds a number that is not
  finite: \<^verbatim>\<open>JSON.parse\<close> reads a literal such as \<^verbatim>\<open>1e999\<close> in a reply as \<^verbatim>\<open>Infinity\<close>,
  \<^verbatim>\<open>analyzeMealImage\<close> stores the analysis with it, and \<^verbatim>\<open>JSON.stringify\<close> writes it as
  \<^verbatim>\<open>null\<close>. What \<^verbatim>\<open>getHistory\<close> returns then differs from the store.
\<close>

theorem getHistory_drops_infinity:
  "nutritionalInfo (hd (meals (mockDb overflowed))) = JNum PosInfinity \<and>
   getHistory overflowed =
     (Inr \<lparr>meals = [\<lparr>id' = ''meal-1000'', timestamp = 1001, nutritionalInfo = JNull,
                      imageDataUrl = ''data:image/png;base64,QUJD''\<rparr>],
           plans = []\<rparr>,
      overflowed) \<and>
   fst (getHistory overflowed) \<noteq> Inr (mockDb overflowed)"
  by (simp add: getHistory_def stringify_history_def mockDb_overflowed written_meal_def)

end
